theory Spec2Isabelle
  imports Main "HOL-Library.Multiset"
begin

section \<open>Strings, paths and glob patterns\<close>

text \<open>
  File names are modelled as \<open>string\<close>. The program compares lowered names only against
  ASCII cues and ASCII extensions, so \<open>str.lower()\<close> is modelled on the letters
  \<open>A\<close> .. \<open>Z\<close>; every other character is left as it is.
\<close>

definition lower_char :: "char \<Rightarrow> char" where
  "lower_char c =
     (case map_of (zip ''ABCDEFGHIJKLMNOPQRSTUVWXYZ'' ''abcdefghijklmnopqrstuvwxyz'') c of
        Some d \<Rightarrow> d
      | None \<Rightarrow> c)"

definition lower :: "string \<Rightarrow> string" where
  "lower s = map lower_char s"

text \<open>Python's \<open>sub in s\<close> on strings: \<open>sub\<close> occurs in \<open>s\<close> as a contiguous block.\<close>

fun str_in :: "string \<Rightarrow> string \<Rightarrow> bool" where
  "str_in sub [] = (sub = [])"
| "str_in sub (c # cs) = (take (length sub) (c # cs) = sub \<or> str_in sub cs)"

text \<open>
  A \<open>pathlib\<close> path is its parent's components and its final component.
  \<open>joinpath\<close> is the \<open>/\<close> operator.
\<close>

datatype path = Path (parent: "string list") (name: string)

definition joinpath :: "path \<Rightarrow> string \<Rightarrow> path" where
  "joinpath p c = Path (parent p @ [name p]) c"

text \<open>\<open>str.rfind('.')\<close>, with \<open>-1\<close> when there is no dot.\<close>

definition rfind_dot :: "string \<Rightarrow> int" where
  "rfind_dot s =
     (if CHR ''.'' \<in> set s
      then int (length s) - 1 - int (length (takeWhile (\<lambda>c. c \<noteq> CHR ''.'') (rev s)))
      else - 1)"

text \<open>
  \<open>PurePath.suffix\<close>: \<open>i = name.rfind('.')\<close>; the suffix is \<open>name[i:]\<close> when
  \<open>0 < i < len(name) - 1\<close> and the empty string otherwise.
\<close>

definition path_suffix :: "string \<Rightarrow> string" where
  "path_suffix nm =
     (let i = rfind_dot nm
      in if 0 < i \<and> i < int (length nm) - 1 then drop (nat i) nm else [])"

text \<open>
  One component of a glob pattern, as \<open>fnmatch\<close> reads it: \<open>*\<close>, a bracket expression
  (a set of single characters) or a literal character. The flag is the case sensitivity of
  the path flavour: POSIX paths match case-sensitively, Windows paths do not.
\<close>

datatype pat = Star | Cls string | Lit char

definition char_eq :: "bool \<Rightarrow> char \<Rightarrow> char \<Rightarrow> bool" where
  "char_eq cs a c = (if cs then a = c else lower_char a = lower_char c)"

definition in_class :: "bool \<Rightarrow> string \<Rightarrow> char \<Rightarrow> bool" where
  "in_class cs cls c = (\<exists>a \<in> set cls. char_eq cs a c)"

fun fnmatch :: "bool \<Rightarrow> pat list \<Rightarrow> string \<Rightarrow> bool" where
  "fnmatch cs [] s = (s = [])"
| "fnmatch cs (Star # ps) [] = fnmatch cs ps []"
| "fnmatch cs (Star # ps) (c # t) = (fnmatch cs ps (c # t) \<or> fnmatch cs (Star # ps) t)"
| "fnmatch cs (Cls k # ps) [] = False"
| "fnmatch cs (Cls k # ps) (c # t) = (in_class cs k c \<and> fnmatch cs ps t)"
| "fnmatch cs (Lit a # ps) [] = False"
| "fnmatch cs (Lit a # ps) (c # t) = (char_eq cs a c \<and> fnmatch cs ps t)"

text \<open>
  The pattern of \<open>get_video_files\<close>, \<open>'[eye|face|side|behavior]*[.mp4|.json]'\<close>: its two
  bracket expressions are character sets, so it asks for a first character among
  \<open>e y | f a c s i d b h v o r\<close> and a last character among \<open>. m p 4 | j s o n\<close>.
\<close>

definition raw_pattern :: "pat list" where
  "raw_pattern = [Cls ''eye|face|side|behavior'', Star, Cls ''.mp4|.json'']"

text \<open>The first component of \<open>'*_tracking/*'\<close>.\<close>

definition tracking_pattern :: "pat list" where
  "tracking_pattern = Star # map Lit ''_tracking''"

section \<open>Errors\<close>

datatype error =
    NotExpected path                  \<comment> \<open>AssertionError: Not an expected raw video data mp4 or json\<close>
  | DuplicateFiles string string string \<comment> \<open>AssertionError: Duplicate files found for session: old, new\<close>
  | NoRawVideo string                 \<comment> \<open>AssertionError: No raw video data found\<close>
  | NoLimsPath string                 \<comment> \<open>AssertionError: No lims path found for spoofed session\<close>
  | FileNotFound string               \<comment> \<open>FileNotFoundError: No ellipse .h5 file found\<close>
  | KeyError string
  | RegistryError                     \<comment> \<open>\<open>np_session.generate_ephys_session\<close> raised\<close>
  | CopyError path                    \<comment> \<open>\<open>np_tools.copy\<close> raised\<close>
  | WriteError path                   \<comment> \<open>\<open>write_text\<close> raised\<close>
  | TriggerError string               \<comment> \<open>\<open>np_session.write_trigger_file\<close> raised\<close>

section \<open>Classification of raw video files\<close>

text \<open>
  The body of the loop of \<open>get_video_files\<close> up to its assertions: the key computed for one
  path. Each \<open>if\<close> overwrites the key set by the one before it.
\<close>

definition role_key :: "string \<Rightarrow> string" where
  "role_key nm =
     (let key = [];
          key = (if lower (path_suffix nm) = ''.mp4'' then
                   (let key = (if str_in ''eye'' (lower nm) then ''eye_tracking'' else key);
                        key = (if str_in ''face'' (lower nm) then ''face_tracking'' else key);
                        key = (if str_in ''side'' (lower nm) \<or> str_in ''behavior'' (lower nm)
                               then ''behavior_tracking'' else key)
                    in key)
                 else key);
          key = (if lower (path_suffix nm) = ''.json'' then
                   (let key = (if str_in ''eye'' (lower nm) then ''eye_cam_json'' else key);
                        key = (if str_in ''face'' (lower nm) then ''face_cam_json'' else key);
                        key = (if str_in ''side'' (lower nm) \<or> str_in ''behavior'' (lower nm)
                               then ''beh_cam_json'' else key)
                    in key)
                 else key)
      in key)"

text \<open>
  The dictionary \<open>lims_name_to_path\<close> is an association list in insertion order (the order
  in which Python iterates it). A key is only ever inserted when it is not yet present.
\<close>

type_synonym video_files = "(string \<times> path) list"

fun classify_loop :: "string \<Rightarrow> path list \<Rightarrow> video_files \<Rightarrow> error + video_files" where
  "classify_loop session [] lims_name_to_path = Inr lims_name_to_path"
| "classify_loop session (p # ps) lims_name_to_path =
     (let key = role_key (name p)
      in if key = [] then Inl (NotExpected p)
         else (case map_of lims_name_to_path key of
                 Some old \<Rightarrow> Inl (DuplicateFiles session (name old) (name p))
               | None \<Rightarrow> classify_loop session ps (lims_name_to_path @ [(key, p)])))"


section \<open>The collaborators and the persistent state\<close>

text \<open>
  Everything a call reads from outside the program: the path flavour, the session and its
  raw directory (the entry names of \<open>session.npexp_path\<close> in the order \<open>scandir\<close> yields
  them), the registry, the intake directory \<open>np_session.DEFAULT_INCOMING_ROOT\<close>, whether
  each collaborator call succeeds, and the output tree of a job: \<open>lims_path\<close> is \<open>None\<close>
  when \<open>spoof_session.lims_path\<close> is falsy, and \<open>lims_listing\<close> gives the subdirectories
  of the output root with their entries, each in enumeration order. A
  \<open>PipelineSession\<close> is modelled by the string \<open>str\<close> gives for it.
\<close>

record env =
  case_sensitive :: bool
  session_str :: string
  npexp_path :: path
  raw_listing :: "string list"
  generate_ephys_session :: "int \<Rightarrow> string \<Rightarrow> string option"
  incoming_root :: path
  copy_ok :: "path \<Rightarrow> bool"
  write_text_ok :: "path \<Rightarrow> bool"
  trigger_ok :: "string \<Rightarrow> bool"
  lims_path :: "string \<Rightarrow> path option"
  lims_listing :: "string \<Rightarrow> (string \<times> string list) list"

text \<open>The calls made to the collaborators, in the order they are made.\<close>

datatype call =
    Generate int string       \<comment> \<open>\<open>np_session.generate_ephys_session(mouse, owner)\<close>\<close>
  | Copy path path            \<comment> \<open>\<open>np_tools.copy(src, dest_dir)\<close>\<close>
  | WriteText path string     \<comment> \<open>\<open>file.write_text(text)\<close>\<close>
  | Trigger string            \<comment> \<open>\<open>np_session.write_trigger_file(spoof_session)\<close>\<close>

text \<open>
  What outlives a call: the two keys of \<open>session.state\<close> the program uses (\<open>None\<close> is an
  absent key; the source annotates \<open>state.get('spoof')\<close> as \<open>str | None\<close> and stores only
  \<open>True\<close> under \<open>'dlc_started'\<close>), and the trace of collaborator calls. An exception
  leaves the effects made before it in place, so an error result carries the state at
  the point where it was raised.
\<close>

record world =
  spoof :: "string option"
  dlc_started :: "bool option"
  calls :: "call list"

type_synonym 'a result = "(error \<times> world) + ('a \<times> world)"

text \<open>Python truthiness of \<open>state.get(key)\<close>.\<close>

definition truthy_str :: "string option \<Rightarrow> bool" where
  "truthy_str v = (case v of None \<Rightarrow> False | Some s \<Rightarrow> s \<noteq> [])"

definition truthy_bool :: "bool option \<Rightarrow> bool" where
  "truthy_bool v = (case v of None \<Rightarrow> False | Some b \<Rightarrow> b)"

section \<open>The job handle\<close>

definition generate_spoof_ecephys_session :: "env \<Rightarrow> int \<Rightarrow> world \<Rightarrow> string result" where
  "generate_spoof_ecephys_session e labtracks_mouse_id w =
     (let w1 = w\<lparr>calls := calls w @ [Generate labtracks_mouse_id ''ben.hardcastle'']\<rparr>
      in case generate_ephys_session e labtracks_mouse_id ''ben.hardcastle'' of
           None \<Rightarrow> Inl (RegistryError, w1)
         | Some j \<Rightarrow> Inr (j, w1))"

text \<open>
  The second half of \<open>get_spoof_ecephys_session\<close>, taken when \<open>existing\<close> is \<open>None\<close> or
  the empty string: create a job for mouse 366122 and record it.
\<close>

definition create_and_record_spoof :: "env \<Rightarrow> world \<Rightarrow> string result" where
  "create_and_record_spoof e w =
     (case generate_spoof_ecephys_session e 366122 w of
        Inl err \<Rightarrow> Inl err
      | Inr (spoof_session, w1) \<Rightarrow> Inr (spoof_session, w1\<lparr>spoof := Some spoof_session\<rparr>))"

definition get_spoof_ecephys_session :: "env \<Rightarrow> world \<Rightarrow> string result" where
  "get_spoof_ecephys_session e w =
     (case spoof w of
        None \<Rightarrow> create_and_record_spoof e w
      | Some existing \<Rightarrow>
          if existing \<noteq> [] then Inr (existing, w) else create_and_record_spoof e w)"

section \<open>Classifying the raw directory\<close>

definition glob_raw :: "env \<Rightarrow> path list" where
  "glob_raw e =
     map (joinpath (npexp_path e))
       (filter (fnmatch (case_sensitive e) raw_pattern) (raw_listing e))"

definition get_video_files :: "env \<Rightarrow> error + video_files" where
  "get_video_files e =
     (case classify_loop (session_str e) (glob_raw e) [] of
        Inl err \<Rightarrow> Inl err
      | Inr lims_name_to_path \<Rightarrow>
          if lims_name_to_path = [] then Inl (NoRawVideo (session_str e))
          else Inr lims_name_to_path)"

section \<open>The manifest\<close>

text \<open>
  \<open>json.dumps\<close> with its defaults (\<open>ensure_ascii\<close>, separators \<open>', '\<close> and \<open>': '\<close>) on
  the values the program builds: strings and dictionaries with string keys.
\<close>

datatype json = JStr string | JObj "(string \<times> json) list"

definition hex_digit :: "nat \<Rightarrow> char" where
  "hex_digit n = ''0123456789abcdef'' ! (n mod 16)"

definition escape_char :: "char \<Rightarrow> string" where
  "escape_char c =
     (if c = CHR 0x5C then [CHR 0x5C, CHR 0x5C]
      else if c = CHR 0x22 then [CHR 0x5C, CHR 0x22]
      else if c = CHR 0x08 then [CHR 0x5C, CHR ''b'']
      else if c = CHR 0x0C then [CHR 0x5C, CHR ''f'']
      else if c = CHR 0x0A then [CHR 0x5C, CHR ''n'']
      else if c = CHR 0x0D then [CHR 0x5C, CHR ''r'']
      else if c = CHR 0x09 then [CHR 0x5C, CHR ''t'']
      else if (of_char c :: nat) < 32 \<or> 126 < (of_char c :: nat)
      then [CHR 0x5C, CHR ''u'', CHR ''0'', CHR ''0'',
            hex_digit (of_char c div 16), hex_digit (of_char c)]
      else [c])"

definition json_quote :: "string \<Rightarrow> string" where
  "json_quote s = [CHR 0x22] @ concat (map escape_char s) @ [CHR 0x22]"

fun join :: "string \<Rightarrow> string list \<Rightarrow> string" where
  "join sep [] = []"
| "join sep [x] = x"
| "join sep (x # y # ys) = x @ sep @ join sep (y # ys)"

fun dumps :: "json \<Rightarrow> string" where
  "dumps (JStr s) = json_quote s"
| "dumps (JObj kvs) =
     ''{'' @ join '', '' (map (\<lambda>kv. json_quote (fst kv) @ '': '' @ dumps (snd kv)) kvs) @ ''}''"

definition manifest_json :: "video_files \<Rightarrow> json" where
  "manifest_json video_files =
     JObj [(''files'', JObj (map (\<lambda>(k, v). (k, JObj [(''filename'', JStr (name v))])) video_files))]"

definition write_platform_json :: "env \<Rightarrow> string \<Rightarrow> world \<Rightarrow> path result" where
  "write_platform_json e spoof_session w =
     (let filename = spoof_session @ ''_platform.json'';
          file = joinpath (incoming_root e) filename
      in case get_video_files e of
           Inl err \<Rightarrow> Inl (err, w)
         | Inr video_files \<Rightarrow>
             (let w1 = w\<lparr>calls := calls w @ [WriteText file (dumps (manifest_json video_files))]\<rparr>
              in if write_text_ok e file then Inr (file, w1) else Inl (WriteError file, w1)))"

section \<open>Upload\<close>

fun copy_each :: "env \<Rightarrow> path list \<Rightarrow> world \<Rightarrow> unit result" where
  "copy_each e [] w = Inr ((), w)"
| "copy_each e (f # fs) w =
     (let w1 = w\<lparr>calls := calls w @ [Copy f (incoming_root e)]\<rparr>
      in if copy_ok e f then copy_each e fs w1 else Inl (CopyError f, w1))"

definition copy_video_files_to_lims_incoming_dir :: "env \<Rightarrow> world \<Rightarrow> unit result" where
  "copy_video_files_to_lims_incoming_dir e w =
     (case get_video_files e of
        Inl err \<Rightarrow> Inl (err, w)
      | Inr video_files \<Rightarrow> copy_each e (map snd video_files) w)"

definition upload_video_data_to_lims :: "env \<Rightarrow> world \<Rightarrow> unit result" where
  "upload_video_data_to_lims e w =
     (case get_spoof_ecephys_session e w of
        Inl err \<Rightarrow> Inl err
      | Inr (spoof_session, w1) \<Rightarrow>
          (let w2 = w1\<lparr>spoof := Some spoof_session\<rparr>
           in case copy_video_files_to_lims_incoming_dir e w2 of
                Inl err \<Rightarrow> Inl err
              | Inr (u, w3) \<Rightarrow>
                  (case write_platform_json e spoof_session w3 of
                     Inl err \<Rightarrow> Inl err
                   | Inr (file, w4) \<Rightarrow>
                       (let w5 = w4\<lparr>calls := calls w4 @ [Trigger spoof_session]\<rparr>
                        in if trigger_ok e spoof_session
                           then Inr ((), w5\<lparr>dlc_started := Some True\<rparr>)
                           else Inl (TriggerError spoof_session, w5)))))"

section \<open>Retrieval\<close>

text \<open>
  \<open>lims_path.glob('*_tracking/*')\<close>: every entry of every subdirectory whose name matches
  \<open>*_tracking\<close>, subdirectory by subdirectory.
\<close>

definition glob_tracking :: "bool \<Rightarrow> path \<Rightarrow> (string \<times> string list) list \<Rightarrow> path list" where
  "glob_tracking cs root listing =
     concat (map (\<lambda>(d, entries). map (joinpath (joinpath root d)) entries)
               (filter (\<lambda>(d, entries). fnmatch cs tracking_pattern d) listing))"

definition get_dlc_paths :: "env \<Rightarrow> world \<Rightarrow> path list result" where
  "get_dlc_paths e w =
     (case (if \<not> truthy_str (spoof w) \<or> \<not> truthy_bool (dlc_started w)
            then upload_video_data_to_lims e w else Inr ((), w)) of
        Inl err \<Rightarrow> Inl err
      | Inr (u, w1) \<Rightarrow>
          (case get_spoof_ecephys_session e w1 of
             Inl err \<Rightarrow> Inl err
           | Inr (spoof_session, w2) \<Rightarrow>
               (case lims_path e spoof_session of
                  None \<Rightarrow> Inl (NoLimsPath spoof_session, w2)
                | Some root \<Rightarrow>
                    Inr (glob_tracking (case_sensitive e) root (lims_listing e spoof_session), w2))))"

text \<open>The result is \<open>None\<close> for Python's bare \<open>return\<close>: the pending outcome.\<close>

definition get_eye_tracking_paths :: "env \<Rightarrow> world \<Rightarrow> (string \<times> path) list option result" where
  "get_eye_tracking_paths e w =
     (case get_dlc_paths e w of
        Inl err \<Rightarrow> Inl err
      | Inr (paths, w1) \<Rightarrow>
          (case find (\<lambda>f. str_in ''ellipse'' (name f)) paths of
             None \<Rightarrow>
               if truthy_bool (dlc_started w1) then Inr (None, w1)
               else Inl (FileNotFound (session_str e), w1)
           | Some dlc_path \<Rightarrow>
               (case get_video_files e of
                  Inl err \<Rightarrow> Inl (err, w1)
                | Inr video_files \<Rightarrow>
                    (case map_of video_files ''eye_cam_json'' of
                       None \<Rightarrow> Inl (KeyError ''eye_cam_json'', w1)
                     | Some meta \<Rightarrow>
                         Inr (Some [(''raw_eye_tracking_video_meta_data'', meta),
                                    (''raw_eye_tracking_filepath'', dlc_path)], w1)))))"


section \<open>Notions used to state the properties\<close>

text \<open>The state a call leaves behind, whether it returns or raises.\<close>

definition final_world :: "'a result \<Rightarrow> world" where
  "final_world r = (case r of Inl (err, w) \<Rightarrow> w | Inr (x, w) \<Rightarrow> w)"

fun is_generate :: "call \<Rightarrow> bool" where
  "is_generate (Generate m ow) = True"
| "is_generate c = False"

fun is_trigger :: "call \<Rightarrow> bool" where
  "is_trigger (Trigger j) = True"
| "is_trigger c = False"

text \<open>The key the loop computes for a path, and the dictionary that pairs each path with its key.\<close>

definition key_of :: "path \<Rightarrow> string" where
  "key_of p = role_key (name p)"

definition keyed :: "path list \<Rightarrow> video_files" where
  "keyed ps = map (\<lambda>p. (key_of p, p)) ps"

text \<open>Every path has a role and no two paths share one: neither assertion of the loop fails.\<close>

definition no_clash :: "path list \<Rightarrow> bool" where
  "no_clash ps = ((\<forall>p \<in> set ps. key_of p \<noteq> []) \<and> distinct (map key_of ps))"

definition all_roles :: "string list" where
  "all_roles = [''eye_tracking'', ''face_tracking'', ''behavior_tracking'',
                ''eye_cam_json'', ''face_cam_json'', ''beh_cam_json'']"

text \<open>
  The collaborator calls of one complete upload for job \<open>j\<close> and classified files \<open>vf\<close>:
  one copy per file, the manifest, the trigger.
\<close>

definition manifest_path :: "env \<Rightarrow> string \<Rightarrow> path" where
  "manifest_path e j = joinpath (incoming_root e) (j @ ''_platform.json'')"

definition upload_calls :: "env \<Rightarrow> string \<Rightarrow> video_files \<Rightarrow> call list" where
  "upload_calls e j vf =
     map (\<lambda>f. Copy f (incoming_root e)) (map snd vf)
     @ [WriteText (manifest_path e j) (dumps (manifest_json vf)), Trigger j]"

text \<open>
  The roles as the specification tables them: the extension \<open>.mp4\<close> or \<open>.json\<close> crossed
  with the cues \<open>eye\<close>, \<open>face\<close> and \<open>side\<close>/\<open>behavior\<close>, extension and cues compared
  without regard to letter case. \<open>spec_roles\<close> lists every role a name fits.
\<close>

definition has_cue :: "string \<Rightarrow> string \<Rightarrow> bool" where
  "has_cue cue nm = str_in cue (lower nm)"

definition spec_roles :: "string \<Rightarrow> string list" where
  "spec_roles nm =
     (if lower (path_suffix nm) = ''.mp4'' then
        (if has_cue ''eye'' nm then [''eye_tracking''] else [])
        @ (if has_cue ''face'' nm then [''face_tracking''] else [])
        @ (if has_cue ''side'' nm \<or> has_cue ''behavior'' nm then [''behavior_tracking''] else [])
      else if lower (path_suffix nm) = ''.json'' then
        (if has_cue ''eye'' nm then [''eye_cam_json''] else [])
        @ (if has_cue ''face'' nm then [''face_cam_json''] else [])
        @ (if has_cue ''side'' nm \<or> has_cue ''behavior'' nm then [''beh_cam_json''] else [])
      else [])"

text \<open>
  The output listing as the specification words it: the entries of the immediate
  subdirectories whose name ends in \<open>_tracking\<close> (compared as the path flavour compares
  names), subdirectory by subdirectory.
\<close>

definition ends_in_tracking :: "bool \<Rightarrow> string \<Rightarrow> bool" where
  "ends_in_tracking cs d =
     (9 \<le> length d \<and>
      (let t = drop (length d - 9) d
       in if cs then t = ''_tracking'' else lower t = ''_tracking''))"

definition tracking_outputs :: "bool \<Rightarrow> path \<Rightarrow> (string \<times> string list) list \<Rightarrow> path list" where
  "tracking_outputs cs root listing =
     concat (map (\<lambda>(d, entries). map (\<lambda>f. Path (parent root @ [name root, d]) f) entries)
               (filter (\<lambda>(d, entries). ends_in_tracking cs d) listing))"

text \<open>An output path is a result candidate when its name contains the cue \<open>ellipse\<close>.\<close>

definition ellipse_named :: "path \<Rightarrow> bool" where
  "ellipse_named f = str_in ''ellipse'' (name f)"

text \<open>
  The manifest as the specification words it: \<open>{"files": {role: {"filename": basename}, ...}}\<close>,
  one entry per classified file in the order of the dictionary, the entries separated by a
  comma and a space, each string a JSON string.
\<close>

definition manifest_entry :: "string \<times> path \<Rightarrow> string" where
  \<open>manifest_entry kv = json_quote (fst kv) @ '': {"filename": '' @ json_quote (name (snd kv)) @ ''}''\<close>

definition manifest_text :: "video_files \<Rightarrow> string" where
  \<open>manifest_text vf = ''{"files": {'' @ join '', '' (map manifest_entry vf) @ ''}}''\<close>

text \<open>
  The text the specification gives for the manifest of the two eye-camera files, and the
  same two entries in the other order.
\<close>

definition claimed_manifest_text :: string where
  \<open>claimed_manifest_text =
     ''{"files": {"eye_tracking": {"filename": "Eye_20230201T122604.mp4"}, "eye_cam_json": {"filename": "Eye_20230201T122604.json"}}}''\<close>

definition json_first_manifest_text :: string where
  \<open>json_first_manifest_text =
     ''{"files": {"eye_cam_json": {"filename": "Eye_20230201T122604.json"}, "eye_tracking": {"filename": "Eye_20230201T122604.mp4"}}}''\<close>

subsection \<open>Concrete sessions\<close>

definition ex_job :: string where
  "ex_job = ''1250000000_366122_20230201''"

text \<open>
  A session on a case-insensitive path flavour whose raw directory holds the two eye-camera
  files, video first; every collaborator call succeeds; the job has an output root with no
  output yet.
\<close>

definition ex_env :: env where
  "ex_env = \<lparr> case_sensitive = False, session_str = ''DRpilot_644864_20230201'',
     npexp_path = Path [''allen'', ''npexp''] ''DRpilot_644864_20230201'',
     raw_listing = [''Eye_20230201T122604.mp4'', ''Eye_20230201T122604.json''],
     generate_ephys_session = (\<lambda>m ow. Some ex_job),
     incoming_root = Path [''allen'', ''lims''] ''incoming'',
     copy_ok = (\<lambda>p. True), write_text_ok = (\<lambda>p. True), trigger_ok = (\<lambda>j. True),
     lims_path = (\<lambda>j. Some (Path [''allen'', ''lims'', ''output''] j)),
     lims_listing = (\<lambda>j. []) \<rparr>"

definition fresh :: world where
  "fresh = \<lparr> spoof = None, dlc_started = None, calls = [] \<rparr>"

definition started :: world where
  "started = \<lparr> spoof = Some ex_job, dlc_started = Some True, calls = [] \<rparr>"


text \<open>One file per role, in no particular order and in mixed case.\<close>

definition ex_six :: env where
  "ex_six = ex_env\<lparr>raw_listing :=
     [''side.json'', ''eye.mp4'', ''Face_cam.JSON'', ''face.mp4'', ''eye.json'', ''Behavior.mp4'']\<rparr>"

text \<open>One file per role, where the eye video's name does not start with a character of the pattern.\<close>

definition ex_prefixed :: env where
  "ex_prefixed = ex_env\<lparr>raw_listing :=
     [''my_eye.mp4'', ''face.mp4'', ''side.mp4'', ''eye.json'', ''face.json'', ''side.json'']\<rparr>"

text \<open>One file per role on a case-sensitive flavour, the eye video's name capitalised.\<close>

definition ex_capital :: env where
  "ex_capital = ex_env\<lparr>case_sensitive := True, raw_listing :=
     [''Eye.mp4'', ''face.mp4'', ''side.mp4'', ''eye.json'', ''face.json'', ''side.json'']\<rparr>"

text \<open>Two eye videos after a face video; two eye videos after a file without a role.\<close>

definition ex_two_eyes :: env where
  "ex_two_eyes = ex_env\<lparr>raw_listing := [''face.mp4'', ''eye1.mp4'', ''eye2.mp4'']\<rparr>"

definition ex_stray_first :: env where
  "ex_stray_first = ex_env\<lparr>raw_listing := [''a.mp4'', ''eye1.mp4'', ''eye2.mp4'']\<rparr>"


text \<open>The two eye-camera files enumerated with the metadata file first.\<close>

definition ex_json_first :: env where
  "ex_json_first = ex_env\<lparr>raw_listing := [''Eye_20230201T122604.json'', ''Eye_20230201T122604.mp4'']\<rparr>"

text \<open>The job has no output root yet; it has one, holding a tracking directory without or with results.\<close>

definition ex_no_root :: env where
  "ex_no_root = ex_env\<lparr>lims_path := (\<lambda>j. None)\<rparr>"

definition ex_pending :: env where
  "ex_pending = ex_env\<lparr>lims_listing := (\<lambda>j. [(''eye_tracking'', [''points.h5''])])\<rparr>"

definition ex_ready :: env where
  "ex_ready = ex_env\<lparr>lims_listing := (\<lambda>j.
     [(''logs'', [''ellipse.log'']),
      (''eye_tracking'', [''points.h5'', ''Eye_ellipse.h5'', ''ellipse_2.h5'']),
      (''face_tracking'', [''ellipse.h5''])])\<rparr>"

text \<open>Results are present and the raw directory holds the eye video only.\<close>

definition ex_ready_no_json :: env where
  "ex_ready_no_json = ex_ready\<lparr>raw_listing := [''Eye_20230201T122604.mp4'']\<rparr>"

text \<open>Writing the manifest fails.\<close>

definition ex_write_fails :: env where
  "ex_write_fails = ex_env\<lparr>write_text_ok := (\<lambda>p. False)\<rparr>"

text \<open>The paths and the collaborator calls of one upload of the two eye-camera files.\<close>

definition eye_mp4 :: path where
  "eye_mp4 = Path [''allen'', ''npexp'', ''DRpilot_644864_20230201''] ''Eye_20230201T122604.mp4''"

definition eye_json :: path where
  "eye_json = Path [''allen'', ''npexp'', ''DRpilot_644864_20230201''] ''Eye_20230201T122604.json''"

definition ex_manifest :: path where
  "ex_manifest = Path [''allen'', ''lims'', ''incoming''] ''1250000000_366122_20230201_platform.json''"

definition ex_upload_calls :: "call list" where
  "ex_upload_calls =
     [Copy eye_mp4 (Path [''allen'', ''lims''] ''incoming''),
      Copy eye_json (Path [''allen'', ''lims''] ''incoming''),
      WriteText ex_manifest claimed_manifest_text,
      Trigger ex_job]"

section \<open>The job handle is created once\<close>

lemma get_spoof_cached:
  "spoof w = Some j \<Longrightarrow> j \<noteq> [] \<Longrightarrow> get_spoof_ecephys_session e w = Inr (j, w)"
  by (simp add: get_spoof_ecephys_session_def)

lemma get_spoof_create:
  "\<not> truthy_str (spoof w) \<Longrightarrow>
   get_spoof_ecephys_session e w = create_and_record_spoof e w"
  by (simp add: get_spoof_ecephys_session_def truthy_str_def split: option.splits)

lemma create_and_record_spoof_result:
  "create_and_record_spoof e w =
     (case generate_ephys_session e 366122 ''ben.hardcastle'' of
        None \<Rightarrow> Inl (RegistryError, w\<lparr>calls := calls w @ [Generate 366122 ''ben.hardcastle'']\<rparr>)
      | Some j \<Rightarrow> Inr (j, w\<lparr>calls := calls w @ [Generate 366122 ''ben.hardcastle''], spoof := Some j\<rparr>))"
  by (simp add: create_and_record_spoof_def generate_spoof_ecephys_session_def Let_def
           split: option.splits)

lemma get_spoof_Inr:
  assumes "get_spoof_ecephys_session e w = Inr (j, w1)"
  shows "spoof w1 = Some j"
    and "dlc_started w1 = dlc_started w"
    and "truthy_str (spoof w) \<Longrightarrow> w1 = w"
    and "\<not> truthy_str (spoof w) \<Longrightarrow>
           w1 = w\<lparr>calls := calls w @ [Generate 366122 ''ben.hardcastle''], spoof := Some j\<rparr>
           \<and> generate_ephys_session e 366122 ''ben.hardcastle'' = Some j"
  using assms
  by (auto simp: get_spoof_ecephys_session_def create_and_record_spoof_result truthy_str_def
           split: option.splits if_splits)

lemma get_spoof_Inl:
  assumes "get_spoof_ecephys_session e w = Inl (err, wa)"
  shows "dlc_started wa = dlc_started w" and "err = RegistryError" and "spoof wa = spoof w"
  using assms
  by (auto simp: get_spoof_ecephys_session_def create_and_record_spoof_result
           split: option.splits if_splits)


text \<open>
  Claim C1. When a call of \<open>get_spoof_ecephys_session\<close> returns the identifier \<open>j\<close> (the
  \<open>str\<close> of a session, which is never empty), a second call on the state it left, with
  any registry, returns the same \<open>j\<close> and leaves the state as it is, so it makes no
  collaborator call; the first call added at most one registry call; and when
  \<open>state['spoof']\<close> already held an identifier, that identifier is returned and nothing
  is created.
\<close>

theorem job_idempotent:
  assumes "get_spoof_ecephys_session e w = Inr (j, w1)" and "j \<noteq> []"
  shows "get_spoof_ecephys_session e' w1 = Inr (j, w1)
         \<and> length (filter is_generate (calls w1)) \<le> length (filter is_generate (calls w)) + 1
         \<and> (truthy_str (spoof w) \<longrightarrow> spoof w = Some j \<and> w1 = w)"
proof -
  have s1: "spoof w1 = Some j" using assms(1) by (rule get_spoof_Inr(1))
  have second: "get_spoof_ecephys_session e' w1 = Inr (j, w1)"
    using s1 assms(2) by (rule get_spoof_cached)
  have count: "length (filter is_generate (calls w1)) \<le> length (filter is_generate (calls w)) + 1"
  proof (cases "truthy_str (spoof w)")
    case True
    then have "w1 = w" using assms(1) by (rule get_spoof_Inr(3)[rotated])
    then show ?thesis by simp
  next
    case False
    then have "w1 = w\<lparr>calls := calls w @ [Generate 366122 ''ben.hardcastle''], spoof := Some j\<rparr>"
      using get_spoof_Inr(4)[OF assms(1)] by simp
    then show ?thesis by simp
  qed
  have cached: "truthy_str (spoof w) \<longrightarrow> spoof w = Some j \<and> w1 = w"
    using get_spoof_Inr(3)[OF assms(1)] s1 by auto
  show ?thesis using second count cached by simp
qed

theorem job_idempotent_witness:
  "get_spoof_ecephys_session ex_env fresh
     = Inr (ex_job, \<lparr>spoof = Some ex_job, dlc_started = None,
                     calls = [Generate 366122 ''ben.hardcastle'']\<rparr>)
   \<and> ex_job \<noteq> []
   \<and> get_spoof_ecephys_session (ex_env\<lparr>generate_ephys_session := (\<lambda>m ow. None)\<rparr>)
        \<lparr>spoof = Some ex_job, dlc_started = None, calls = [Generate 366122 ''ben.hardcastle'']\<rparr>
     = Inr (ex_job, \<lparr>spoof = Some ex_job, dlc_started = None,
                     calls = [Generate 366122 ''ben.hardcastle'']\<rparr>)"
proof -
  have h1: "get_spoof_ecephys_session ex_env fresh
     = Inr (ex_job, \<lparr>spoof = Some ex_job, dlc_started = None,
                     calls = [Generate 366122 ''ben.hardcastle'']\<rparr>)"
    by code_simp
  have h2: "ex_job \<noteq> []" by code_simp
  from job_idempotent[OF h1 h2] show ?thesis using h1 h2 by blast
qed

text \<open>
  Claim C10. When no identifier is cached, the one call made to the registry has mouse
  366122 and owner \<open>ben.hardcastle\<close>, whatever the session and whatever the outcome.
\<close>

theorem new_job_fixed_owner_and_mouse:
  assumes "\<not> truthy_str (spoof w)"
  shows "calls (final_world (get_spoof_ecephys_session e w))
           = calls w @ [Generate 366122 ''ben.hardcastle'']"
  using assms
  by (simp add: get_spoof_create create_and_record_spoof_result final_world_def split: option.splits)

theorem new_job_fixed_owner_and_mouse_witness:
  "\<not> truthy_str (spoof fresh)
   \<and> calls (final_world (get_spoof_ecephys_session ex_env fresh))
       = calls fresh @ [Generate 366122 ''ben.hardcastle'']"
proof -
  have h: "\<not> truthy_str (spoof fresh)" by code_simp
  from new_job_fixed_owner_and_mouse[OF h] show ?thesis using h by blast
qed

section \<open>The classification loop\<close>

lemma map_of_keyed_None: "map_of (keyed ds) k = None \<longleftrightarrow> k \<notin> key_of ` set ds"
  by (induction ds) (auto simp: keyed_def)

lemma map_of_keyed_Some:
  "map_of (keyed ds) k = Some old \<Longrightarrow> \<exists>a < length ds. ds ! a = old \<and> key_of old = k"
proof (induction ds)
  case Nil
  then show ?case by (simp add: keyed_def)
next
  case (Cons d ds)
  show ?case
  proof (cases "key_of d = k")
    case True
    then have "old = d" using Cons.prems by (simp add: keyed_def)
    then show ?thesis using True by auto
  next
    case False
    then have "map_of (keyed ds) k = Some old" using Cons.prems by (simp add: keyed_def)
    then obtain a where "a < length ds" "ds ! a = old" "key_of old = k"
      using Cons.IH by blast
    then have "Suc a < length (d # ds) \<and> (d # ds) ! Suc a = old \<and> key_of old = k" by simp
    then show ?thesis by blast
  qed
qed

lemma keyed_snoc: "keyed ds @ [(key_of p, p)] = keyed (ds @ [p])"
  by (simp add: keyed_def)

lemma no_clash_snoc:
  "no_clash ds \<Longrightarrow> key_of p \<noteq> [] \<Longrightarrow> key_of p \<notin> key_of ` set ds \<Longrightarrow> no_clash (ds @ [p])"
  by (auto simp: no_clash_def)

lemma classify_loop_cases:
  assumes "no_clash ds"
  shows "(classify_loop s ps (keyed ds) = Inr (keyed (ds @ ps)) \<and> no_clash (ds @ ps))
       \<or> (\<exists>k. length ds \<le> k \<and> k < length (ds @ ps) \<and> no_clash (take k (ds @ ps))
              \<and> key_of ((ds @ ps) ! k) = []
              \<and> classify_loop s ps (keyed ds) = Inl (NotExpected ((ds @ ps) ! k)))
       \<or> (\<exists>a b. a < b \<and> length ds \<le> b \<and> b < length (ds @ ps) \<and> no_clash (take b (ds @ ps))
              \<and> key_of ((ds @ ps) ! a) = key_of ((ds @ ps) ! b)
              \<and> key_of ((ds @ ps) ! b) \<noteq> []
              \<and> classify_loop s ps (keyed ds)
                  = Inl (DuplicateFiles s (name ((ds @ ps) ! a)) (name ((ds @ ps) ! b))))"
  using assms
proof (induction ps arbitrary: ds)
  case Nil
  then show ?case by simp
next
  case (Cons p ps)
  let ?all = "ds @ p # ps"
  have at: "?all ! length ds = p" by simp
  have tk: "take (length ds) ?all = ds" by simp
  show ?case
  proof (cases "key_of p = []")
    case True
    have "classify_loop s (p # ps) (keyed ds) = Inl (NotExpected p)"
      using True by (simp add: key_of_def)
    then have "length ds \<le> length ds \<and> length ds < length ?all \<and> no_clash (take (length ds) ?all)
          \<and> key_of (?all ! length ds) = []
          \<and> classify_loop s (p # ps) (keyed ds) = Inl (NotExpected (?all ! length ds))"
      using True Cons.prems by (simp only: at tk) simp
    then show ?thesis by blast
  next
    case nonempty: False
    show ?thesis
    proof (cases "map_of (keyed ds) (key_of p)")
      case (Some old)
      then obtain a where a: "a < length ds" "ds ! a = old" "key_of old = key_of p"
        using map_of_keyed_Some by blast
      have res: "classify_loop s (p # ps) (keyed ds) = Inl (DuplicateFiles s (name old) (name p))"
        using nonempty Some by (simp add: key_of_def)
      have ata: "?all ! a = old" using a by (simp add: nth_append)
      have "a < length ds \<and> length ds \<le> length ds \<and> length ds < length ?all
          \<and> no_clash (take (length ds) ?all)
          \<and> key_of (?all ! a) = key_of (?all ! length ds)
          \<and> key_of (?all ! length ds) \<noteq> []
          \<and> classify_loop s (p # ps) (keyed ds)
               = Inl (DuplicateFiles s (name (?all ! a)) (name (?all ! length ds)))"
        using a nonempty res Cons.prems by (simp only: at tk ata) simp
      then show ?thesis by blast
    next
      case None
      then have fresh: "key_of p \<notin> key_of ` set ds" by (simp add: map_of_keyed_None)
      have step: "classify_loop s (p # ps) (keyed ds) = classify_loop s ps (keyed (ds @ [p]))"
        using nonempty None by (simp add: key_of_def keyed_snoc[symmetric])
      have nc: "no_clash (ds @ [p])" using Cons.prems nonempty fresh by (rule no_clash_snoc)
      have eq: "(ds @ [p]) @ ps = ?all" by simp
      have len: "length (ds @ [p]) = Suc (length ds)" by simp
      from Cons.IH[OF nc] show ?thesis
        unfolding step eq len by (meson Suc_leD)
    qed
  qed
qed

lemma fnmatch_star_cls:
  "fnmatch cs [Star, Cls k] s \<longleftrightarrow> s \<noteq> [] \<and> in_class cs k (last s)"
  by (induction s) auto

lemma raw_pattern_matches:
  "fnmatch cs raw_pattern s \<longleftrightarrow>
     2 \<le> length s \<and> in_class cs ''eye|face|side|behavior'' (hd s)
       \<and> in_class cs ''.mp4|.json'' (last s)"
  unfolding raw_pattern_def
  by (cases s) (auto simp: fnmatch_star_cls Suc_le_eq)

lemma all_roles_distinct: "distinct all_roles"
  by (simp add: all_roles_def)

lemma key_of_joinpath: "key_of (joinpath r n) = role_key n"
  by (simp add: key_of_def joinpath_def)

lemma classify_loop_no_clash:
  assumes "no_clash ps"
  shows "classify_loop s ps [] = Inr (keyed ps)"
proof -
  have nc0: "no_clash []" by (simp add: no_clash_def)
  from classify_loop_cases[OF nc0, of s ps]
  consider (ok) "classify_loop s ps [] = Inr (keyed ps)"
    | (ne) k where "k < length ps" "key_of (ps ! k) = []"
    | (dup) a b where "a < b" "b < length ps" "key_of (ps ! a) = key_of (ps ! b)"
    by (auto simp: keyed_def)
  then show ?thesis
  proof cases
    case ok
    then show ?thesis .
  next
    case ne
    then have "ps ! k \<in> set ps" by simp
    then show ?thesis using assms ne(2) by (auto simp: no_clash_def)
  next
    case dup
    then have "map key_of ps ! a = map key_of ps ! b" "a < length (map key_of ps)"
      "b < length (map key_of ps)" "a \<noteq> b" by auto
    then have "\<not> distinct (map key_of ps)" using nth_eq_iff_index_eq by blast
    then show ?thesis using assms by (simp add: no_clash_def)
  qed
qed

lemma get_video_files_no_clash:
  assumes "no_clash (glob_raw e)" and "glob_raw e \<noteq> []"
  shows "get_video_files e = Inr (keyed (glob_raw e))"
  using assms by (simp add: get_video_files_def classify_loop_no_clash keyed_def)


lemma spec_roles_single: "spec_roles nm = [r] \<Longrightarrow> role_key nm = r"
  by (auto simp: spec_roles_def role_key_def has_cue_def split: if_splits)

lemma lower_char_dot: "lower_char c = CHR ''.'' \<longleftrightarrow> c = CHR ''.''"
  by (simp add: lower_char_def)

lemma lower_dot_pred: "(\<lambda>c. lower_char c \<noteq> CHR ''.'') = (\<lambda>c. c \<noteq> CHR ''.'')"
  by (rule ext) (simp only: lower_char_dot)

lemma rfind_dot_lower: "rfind_dot (lower s) = rfind_dot s"
proof -
  have a: "(CHR ''.'' \<in> set (lower s)) = (CHR ''.'' \<in> set s)"
  proof
    assume "CHR ''.'' \<in> set (lower s)"
    then obtain c where "c \<in> set s" "lower_char c = CHR ''.''"
      unfolding lower_def by (metis (no_types) image_iff list.set_map)
    then show "CHR ''.'' \<in> set s" by (simp only: lower_char_dot)
  next
    assume "CHR ''.'' \<in> set s"
    then have "lower_char (CHR ''.'') \<in> set (lower s)" unfolding lower_def by simp
    moreover have "lower_char (CHR ''.'') = CHR ''.''" by (simp only: lower_char_dot)
    ultimately show "CHR ''.'' \<in> set (lower s)" by simp
  qed
  have "takeWhile (\<lambda>c. c \<noteq> CHR ''.'') (rev (map lower_char s))
          = map lower_char (takeWhile (\<lambda>c. lower_char c \<noteq> CHR ''.'') (rev s))"
    by (simp only: rev_map takeWhile_map comp_def)
  then have b: "length (takeWhile (\<lambda>c. c \<noteq> CHR ''.'') (rev (lower s)))
          = length (takeWhile (\<lambda>c. c \<noteq> CHR ''.'') (rev s))"
    unfolding lower_def lower_dot_pred by simp
  have len: "length (lower s) = length s" by (simp add: lower_def)
  show ?thesis unfolding rfind_dot_def a b len ..
qed

lemma path_suffix_lower: "path_suffix (lower nm) = lower (path_suffix nm)"
proof -
  have len: "length (lower nm) = length nm" by (simp add: lower_def)
  show ?thesis
    unfolding path_suffix_def Let_def rfind_dot_lower len
    by (simp add: lower_def drop_map)
qed

lemma role_key_case:
  assumes "lower nm = lower nm'"
  shows "role_key nm = role_key nm'"
  unfolding role_key_def path_suffix_lower[symmetric] assms ..

lemma one_file_per_key:
  assumes roles: "mset (map role_key (raw_listing e)) = mset all_roles"
    and globbed: "\<forall>n \<in> set (raw_listing e). fnmatch (case_sensitive e) raw_pattern n"
  shows "\<exists>vf. get_video_files e = Inr vf \<and> length vf = 6 \<and> set (map fst vf) = set all_roles
            \<and> (\<forall>n \<in> set (raw_listing e). map_of vf (role_key n) = Some (joinpath (npexp_path e) n))"
proof -
  let ?l = "raw_listing e"
  let ?g = "map (joinpath (npexp_path e)) ?l"
  have g: "glob_raw e = ?g" using globbed by (simp add: glob_raw_def)
  have keys: "map key_of ?g = map role_key ?l" by (simp add: key_of_joinpath)
  have dis: "distinct (map role_key ?l)"
    using roles by (metis all_roles_distinct mset_eq_imp_distinct_iff)
  have st: "set (map role_key ?l) = set all_roles" using roles by (rule mset_eq_setD)
  have len: "length ?l = 6"
    using mset_eq_length[OF roles] by (simp add: all_roles_def)
  have ne: "\<forall>n \<in> set ?l. role_key n \<noteq> []"
  proof
    fix n assume "n \<in> set ?l"
    then have "role_key n \<in> set all_roles" using st by auto
    then show "role_key n \<noteq> []" by (auto simp: all_roles_def)
  qed
  have nc: "no_clash ?g"
    unfolding no_clash_def keys using dis ne by (simp add: key_of_joinpath)
  have nonempty: "?g \<noteq> []" using len by auto
  have res: "get_video_files e = Inr (keyed ?g)"
    using get_video_files_no_clash[of e] nc nonempty unfolding g by simp
  have fsts: "map fst (keyed ?g) = map role_key ?l"
    by (simp add: keyed_def key_of_joinpath comp_def)
  have look: "\<forall>n \<in> set ?l. map_of (keyed ?g) (role_key n) = Some (joinpath (npexp_path e) n)"
  proof
    fix n assume n: "n \<in> set ?l"
    have d: "distinct (map fst (keyed ?g))" using dis fsts by simp
    have "(role_key n, joinpath (npexp_path e) n) \<in> set (keyed ?g)"
      using n by (auto simp: keyed_def key_of_joinpath)
    then show "map_of (keyed ?g) (role_key n) = Some (joinpath (npexp_path e) n)"
      using d by (rule map_of_is_SomeI[rotated])
  qed
  have "length (keyed ?g) = 6" using len by (simp add: keyed_def)
  moreover have "set (map fst (keyed ?g)) = set all_roles" using fsts st by simp
  ultimately show ?thesis using res look by blast
qed

text \<open>
  Claim C7, as amended. When the raw directory holds exactly one file per role of the
  specification's table, each file fitting exactly one role, and the glob enumerates every
  one of them, \<open>get_video_files\<close> returns six entries, one per role, each role mapped to
  the file that fits it. The hypotheses do not mention the order of the listing, so the
  result is the same mapping for every enumeration order; and two names that differ only
  in letter case get the same key.
\<close>

theorem one_file_per_role:
  assumes roles: "mset (map spec_roles (raw_listing e)) = mset (map (\<lambda>r. [r]) all_roles)"
    and globbed: "\<forall>n \<in> set (raw_listing e). fnmatch (case_sensitive e) raw_pattern n"
  shows "(\<exists>vf. get_video_files e = Inr vf \<and> length vf = 6 \<and> set (map fst vf) = set all_roles
            \<and> (\<forall>n \<in> set (raw_listing e). \<forall>r. spec_roles n = [r] \<longrightarrow>
                  map_of vf r = Some (joinpath (npexp_path e) n)))
       \<and> (\<forall>nm nm'. lower nm = lower nm' \<longrightarrow> role_key nm = role_key nm')"
proof -
  let ?l = "raw_listing e"
  have single: "\<exists>r. spec_roles n = [r]" if "n \<in> set ?l" for n
  proof -
    have "spec_roles n \<in> set (map spec_roles ?l)" using that by simp
    then have "spec_roles n \<in> set (map (\<lambda>r. [r]) all_roles)"
      using mset_eq_setD[OF roles] by simp
    then show ?thesis by auto
  qed
  have key: "role_key n = hd (spec_roles n)" if "n \<in> set ?l" for n
    using single[OF that] spec_roles_single by fastforce
  have eq: "map role_key ?l = map (\<lambda>n. hd (spec_roles n)) ?l"
    by (rule map_cong[OF refl]) (rule key)
  have "mset (map role_key ?l) = mset (map (\<lambda>n. hd (spec_roles n)) ?l)"
    by (simp only: eq)
  also have "\<dots> = image_mset hd (mset (map spec_roles ?l))"
    by (simp add: multiset.map_comp comp_def)
  also have "\<dots> = image_mset hd (mset (map (\<lambda>r. [r]) all_roles))"
    using roles by simp
  also have "\<dots> = mset all_roles"
    by (simp add: all_roles_def)
  finally have keys: "mset (map role_key ?l) = mset all_roles" .
  from one_file_per_key[OF keys globbed] obtain vf
    where vf: "get_video_files e = Inr vf" "length vf = 6" "set (map fst vf) = set all_roles"
      "\<forall>n \<in> set ?l. map_of vf (role_key n) = Some (joinpath (npexp_path e) n)"
    by blast
  have "\<forall>n \<in> set ?l. \<forall>r. spec_roles n = [r] \<longrightarrow> map_of vf r = Some (joinpath (npexp_path e) n)"
    using vf(4) spec_roles_single by blast
  then have first: "\<exists>vf. get_video_files e = Inr vf \<and> length vf = 6
            \<and> set (map fst vf) = set all_roles
            \<and> (\<forall>n \<in> set ?l. \<forall>r. spec_roles n = [r] \<longrightarrow>
                  map_of vf r = Some (joinpath (npexp_path e) n))"
    using vf(1,2,3) by blast
  have second: "\<forall>nm nm'. lower nm = lower nm' \<longrightarrow> role_key nm = role_key nm'"
    using role_key_case by blast
  show ?thesis using first second by (rule conjI)
qed

theorem one_file_per_role_witness:
  "mset (map spec_roles (raw_listing ex_six))
     = mset [[''eye_tracking''], [''face_tracking''], [''behavior_tracking''],
             [''eye_cam_json''], [''face_cam_json''], [''beh_cam_json'']]
   \<and> list_all (fnmatch (case_sensitive ex_six) raw_pattern) (raw_listing ex_six)
   \<and> get_video_files ex_six
       = Inr [(''beh_cam_json'', joinpath (npexp_path ex_six) ''side.json''),
              (''eye_tracking'', joinpath (npexp_path ex_six) ''eye.mp4''),
              (''face_cam_json'', joinpath (npexp_path ex_six) ''Face_cam.JSON''),
              (''face_tracking'', joinpath (npexp_path ex_six) ''face.mp4''),
              (''eye_cam_json'', joinpath (npexp_path ex_six) ''eye.json''),
              (''behavior_tracking'', joinpath (npexp_path ex_six) ''Behavior.mp4'')]
   \<and> (\<exists>vf. get_video_files ex_six = Inr vf \<and> length vf = 6 \<and> set (map fst vf) = set all_roles
         \<and> (\<forall>n \<in> set (raw_listing ex_six). \<forall>r. spec_roles n = [r] \<longrightarrow>
               map_of vf r = Some (joinpath (npexp_path ex_six) n)))"
proof -
  have h1: "mset (map spec_roles (raw_listing ex_six)) = mset (map (\<lambda>r. [r]) all_roles)"
    by code_simp
  have h1': "mset (map spec_roles (raw_listing ex_six))
     = mset [[''eye_tracking''], [''face_tracking''], [''behavior_tracking''],
             [''eye_cam_json''], [''face_cam_json''], [''beh_cam_json'']]"
    by code_simp
  have h2: "\<forall>n \<in> set (raw_listing ex_six). fnmatch (case_sensitive ex_six) raw_pattern n"
    by code_simp
  have h3: "list_all (fnmatch (case_sensitive ex_six) raw_pattern) (raw_listing ex_six)"
    using h2 by (simp add: list_all_iff)
  have r: "get_video_files ex_six
       = Inr [(''beh_cam_json'', joinpath (npexp_path ex_six) ''side.json''),
              (''eye_tracking'', joinpath (npexp_path ex_six) ''eye.mp4''),
              (''face_cam_json'', joinpath (npexp_path ex_six) ''Face_cam.JSON''),
              (''face_tracking'', joinpath (npexp_path ex_six) ''face.mp4''),
              (''eye_cam_json'', joinpath (npexp_path ex_six) ''eye.json''),
              (''behavior_tracking'', joinpath (npexp_path ex_six) ''Behavior.mp4'')]"
    by code_simp
  from one_file_per_role[OF h1 h2] show ?thesis using h1' h3 r by blast
qed

text \<open>
  Claim C7 as stated fails: a directory with one file per role, where the eye video is
  \<open>my_eye.mp4\<close> (or \<open>Eye.mp4\<close> on a case-sensitive flavour), classifies to five roles;
  the pattern never enumerates the eye video.
\<close>

theorem one_file_per_role_counterexample:
  "map spec_roles (raw_listing ex_prefixed)
     = [[''eye_tracking''], [''face_tracking''], [''behavior_tracking''],
        [''eye_cam_json''], [''face_cam_json''], [''beh_cam_json'']]
   \<and> get_video_files ex_prefixed
       = Inr [(''face_tracking'', joinpath (npexp_path ex_prefixed) ''face.mp4''),
              (''behavior_tracking'', joinpath (npexp_path ex_prefixed) ''side.mp4''),
              (''eye_cam_json'', joinpath (npexp_path ex_prefixed) ''eye.json''),
              (''face_cam_json'', joinpath (npexp_path ex_prefixed) ''face.json''),
              (''beh_cam_json'', joinpath (npexp_path ex_prefixed) ''side.json'')]
   \<and> map spec_roles (raw_listing ex_capital)
     = [[''eye_tracking''], [''face_tracking''], [''behavior_tracking''],
        [''eye_cam_json''], [''face_cam_json''], [''beh_cam_json'']]
   \<and> get_video_files ex_capital
       = Inr [(''face_tracking'', joinpath (npexp_path ex_capital) ''face.mp4''),
              (''behavior_tracking'', joinpath (npexp_path ex_capital) ''side.mp4''),
              (''eye_cam_json'', joinpath (npexp_path ex_capital) ''eye.json''),
              (''face_cam_json'', joinpath (npexp_path ex_capital) ''face.json''),
              (''beh_cam_json'', joinpath (npexp_path ex_capital) ''side.json'')]"
  by code_simp

text \<open>
  Claim C8, as amended. When two enumerated files have the same role, \<open>get_video_files\<close>
  fails at the first path, in enumeration order, that has no role or repeats a role:
  with the unrecognised-file error for that path, or with the duplicate error naming the
  earlier file of that role and the repeating one. No mapping is returned.
\<close>

theorem duplicate_role_fails:
  assumes "a < b" and "b < length (glob_raw e)"
    and "key_of (glob_raw e ! a) = key_of (glob_raw e ! b)"
    and "key_of (glob_raw e ! b) \<noteq> []"
  shows "(\<exists>k < length (glob_raw e). key_of (glob_raw e ! k) = [] \<and> no_clash (take k (glob_raw e))
            \<and> get_video_files e = Inl (NotExpected (glob_raw e ! k)))
       \<or> (\<exists>i j. i < j \<and> j < length (glob_raw e)
            \<and> key_of (glob_raw e ! i) = key_of (glob_raw e ! j)
            \<and> no_clash (take j (glob_raw e))
            \<and> get_video_files e
                 = Inl (DuplicateFiles (session_str e) (name (glob_raw e ! i)) (name (glob_raw e ! j))))"
proof -
  let ?g = "glob_raw e"
  have nc0: "no_clash []" by (simp add: no_clash_def)
  have clash: "\<not> no_clash ?g"
  proof
    assume "no_clash ?g"
    then have d: "distinct (map key_of ?g)" by (simp add: no_clash_def)
    have "map key_of ?g ! a = map key_of ?g ! b" "a < length (map key_of ?g)"
      "b < length (map key_of ?g)" "a \<noteq> b" using assms by auto
    then show False using d nth_eq_iff_index_eq by blast
  qed
  from classify_loop_cases[OF nc0, of "session_str e" ?g]
  consider (ok) "no_clash ?g"
    | (ne) k where "k < length ?g" "no_clash (take k ?g)" "key_of (?g ! k) = []"
        "classify_loop (session_str e) ?g [] = Inl (NotExpected (?g ! k))"
    | (dup) i j where "i < j" "j < length ?g" "no_clash (take j ?g)"
        "key_of (?g ! i) = key_of (?g ! j)"
        "classify_loop (session_str e) ?g []
           = Inl (DuplicateFiles (session_str e) (name (?g ! i)) (name (?g ! j)))"
    by (auto simp: keyed_def)
  then show ?thesis
  proof cases
    case ok
    then show ?thesis using clash by simp
  next
    case ne
    then have "k < length ?g \<and> key_of (?g ! k) = [] \<and> no_clash (take k ?g)
        \<and> get_video_files e = Inl (NotExpected (?g ! k))"
      by (simp add: get_video_files_def)
    then show ?thesis by blast
  next
    case dup
    then have "i < j \<and> j < length ?g \<and> key_of (?g ! i) = key_of (?g ! j) \<and> no_clash (take j ?g)
        \<and> get_video_files e
             = Inl (DuplicateFiles (session_str e) (name (?g ! i)) (name (?g ! j)))"
      by (simp add: get_video_files_def)
    then show ?thesis by blast
  qed
qed

theorem duplicate_role_fails_witness:
  "(1::nat) < 2 \<and> 2 < length (glob_raw ex_two_eyes)
   \<and> key_of (glob_raw ex_two_eyes ! 1) = key_of (glob_raw ex_two_eyes ! 2)
   \<and> key_of (glob_raw ex_two_eyes ! 2) \<noteq> []
   \<and> get_video_files ex_two_eyes
       = Inl (DuplicateFiles ''DRpilot_644864_20230201'' ''eye1.mp4'' ''eye2.mp4'')
   \<and> ((\<exists>k < length (glob_raw ex_two_eyes). key_of (glob_raw ex_two_eyes ! k) = []
            \<and> no_clash (take k (glob_raw ex_two_eyes))
            \<and> get_video_files ex_two_eyes = Inl (NotExpected (glob_raw ex_two_eyes ! k)))
       \<or> (\<exists>i j. i < j \<and> j < length (glob_raw ex_two_eyes)
            \<and> key_of (glob_raw ex_two_eyes ! i) = key_of (glob_raw ex_two_eyes ! j)
            \<and> no_clash (take j (glob_raw ex_two_eyes))
            \<and> get_video_files ex_two_eyes
                 = Inl (DuplicateFiles (session_str ex_two_eyes)
                          (name (glob_raw ex_two_eyes ! i)) (name (glob_raw ex_two_eyes ! j)))))"
proof -
  have h1: "(1::nat) < 2" by simp
  have h2: "2 < length (glob_raw ex_two_eyes)" by code_simp
  have h3: "key_of (glob_raw ex_two_eyes ! 1) = key_of (glob_raw ex_two_eyes ! 2)" by code_simp
  have h4: "key_of (glob_raw ex_two_eyes ! 2) \<noteq> []" by code_simp
  have r: "get_video_files ex_two_eyes
       = Inl (DuplicateFiles ''DRpilot_644864_20230201'' ''eye1.mp4'' ''eye2.mp4'')"
    by code_simp
  from duplicate_role_fails[OF h1 h2 h3 h4] show ?thesis using h1 h2 h3 h4 r by blast
qed

text \<open>
  Claim C8 as stated fails: with \<open>a.mp4\<close> enumerated before two eye videos, the error is
  the unrecognised-file error for \<open>a.mp4\<close>; it names neither eye video.
\<close>

theorem duplicate_role_counterexample:
  "map name (glob_raw ex_stray_first) = [''a.mp4'', ''eye1.mp4'', ''eye2.mp4'']
   \<and> role_key ''eye1.mp4'' = ''eye_tracking'' \<and> role_key ''eye2.mp4'' = ''eye_tracking''
   \<and> get_video_files ex_stray_first
       = Inl (NotExpected (joinpath (npexp_path ex_stray_first) ''a.mp4''))"
  by code_simp



section \<open>Upload and the output listing\<close>

lemma final_world_simps:
  "final_world (Inl (err, w)) = w" "final_world (Inr (x, w)) = w"
  by (simp_all add: final_world_def)

lemma copy_each_ok:
  "\<forall>f \<in> set fs. copy_ok e f \<Longrightarrow>
   copy_each e fs w = Inr ((), w\<lparr>calls := calls w @ map (\<lambda>f. Copy f (incoming_root e)) fs\<rparr>)"
  by (induction fs arbitrary: w) (simp_all add: Let_def)

lemma copy_each_state:
  "dlc_started (final_world (copy_each e fs w)) = dlc_started w
   \<and> spoof (final_world (copy_each e fs w)) = spoof w"
  by (induction fs arbitrary: w) (simp_all add: Let_def final_world_simps)

lemma copy_video_files_state:
  "dlc_started (final_world (copy_video_files_to_lims_incoming_dir e w)) = dlc_started w
   \<and> spoof (final_world (copy_video_files_to_lims_incoming_dir e w)) = spoof w"
  by (simp add: copy_video_files_to_lims_incoming_dir_def copy_each_state final_world_simps
           split: sum.splits)

lemma write_platform_json_state:
  "dlc_started (final_world (write_platform_json e j w)) = dlc_started w
   \<and> spoof (final_world (write_platform_json e j w)) = spoof w"
  by (simp add: write_platform_json_def Let_def final_world_simps split: sum.splits)

lemma get_spoof_state:
  "dlc_started (final_world (get_spoof_ecephys_session e w)) = dlc_started w"
  by (simp add: get_spoof_ecephys_session_def create_and_record_spoof_result final_world_simps
           split: option.splits)

lemma upload_Inl_state:
  assumes "upload_video_data_to_lims e w = Inl (err, wa)"
  shows "dlc_started wa = dlc_started w"
proof (cases "get_spoof_ecephys_session e w")
  case (Inl x)
  then have "x = (err, wa)" using assms by (simp add: upload_video_data_to_lims_def)
  then show ?thesis using get_spoof_state[of e w] Inl by (simp add: final_world_simps)
next
  case (Inr y)
  obtain j w1 where y: "y = (j, w1)" by (cases y)
  have d1: "dlc_started w1 = dlc_started w"
    using get_spoof_state[of e w] Inr y by (simp add: final_world_simps)
  let ?w2 = "w1\<lparr>spoof := Some j\<rparr>"
  show ?thesis
  proof (cases "copy_video_files_to_lims_incoming_dir e ?w2")
    case (Inl x)
    then have "x = (err, wa)" using assms Inr y by (simp add: upload_video_data_to_lims_def)
    then show ?thesis
      using copy_video_files_state[of e ?w2] Inl d1 by (simp add: final_world_simps)
  next
    case cp: (Inr z)
    obtain u w3 where z: "z = (u, w3)" by (cases z)
    have d3: "dlc_started w3 = dlc_started w"
      using copy_video_files_state[of e ?w2] cp z d1 by (simp add: final_world_simps)
    show ?thesis
    proof (cases "write_platform_json e j w3")
      case (Inl x)
      then have "x = (err, wa)"
        using assms Inr y cp z by (simp add: upload_video_data_to_lims_def)
      then show ?thesis
        using write_platform_json_state[of e j w3] Inl d3 by (simp add: final_world_simps)
    next
      case wr: (Inr v)
      obtain mf w4 where v: "v = (mf, w4)" by (cases v)
      have d4: "dlc_started w4 = dlc_started w"
        using write_platform_json_state[of e j w3] wr v d3 by (simp add: final_world_simps)
      have "wa = w4\<lparr>calls := calls w4 @ [Trigger j]\<rparr>"
        using assms Inr y cp z wr v
        by (simp add: upload_video_data_to_lims_def Let_def split: if_splits)
      then show ?thesis using d4 by simp
    qed
  qed
qed

lemma upload_Inr_started:
  assumes "upload_video_data_to_lims e w = Inr (u, w1)"
  shows "dlc_started w1 = Some True"
  using assms
  by (auto simp: upload_video_data_to_lims_def Let_def split: sum.splits if_splits prod.splits)

lemma write_platform_json_ok:
  assumes "get_video_files e = Inr vf" and "write_text_ok e (manifest_path e j)"
  shows "write_platform_json e j w
           = Inr (manifest_path e j,
                  w\<lparr>calls := calls w @ [WriteText (manifest_path e j) (dumps (manifest_json vf))]\<rparr>)"
  using assms by (simp add: write_platform_json_def manifest_path_def Let_def)

lemma upload_ok:
  assumes job: "get_spoof_ecephys_session e w = Inr (j, w1)"
    and vf: "get_video_files e = Inr vf"
    and copies: "\<forall>f \<in> set (map snd vf). copy_ok e f"
    and wr: "write_text_ok e (manifest_path e j)"
    and tr: "trigger_ok e j"
  shows "upload_video_data_to_lims e w
           = Inr ((), w1\<lparr>calls := calls w1 @ upload_calls e j vf, dlc_started := Some True\<rparr>)"
proof -
  have sp: "spoof w1 = Some j" using job by (rule get_spoof_Inr(1))
  have w2: "w1\<lparr>spoof := Some j\<rparr> = w1" using sp by (cases w1) simp
  have cp: "copy_video_files_to_lims_incoming_dir e w1
              = Inr ((), w1\<lparr>calls := calls w1 @ map (\<lambda>f. Copy f (incoming_root e)) (map snd vf)\<rparr>)"
    using vf copy_each_ok[OF copies] by (simp add: copy_video_files_to_lims_incoming_dir_def)
  show ?thesis
    unfolding upload_video_data_to_lims_def
    by (simp add: job w2 cp write_platform_json_ok[OF vf wr] tr upload_calls_def Let_def)
qed

lemma get_dlc_paths_Inr:
  assumes "get_dlc_paths e w = Inr (paths, w1)"
  shows "truthy_bool (dlc_started w1)"
    and "\<exists>j root. spoof w1 = Some j \<and> lims_path e j = Some root
           \<and> paths = glob_tracking (case_sensitive e) root (lims_listing e j)"
proof -
  let ?first = "if \<not> truthy_str (spoof w) \<or> \<not> truthy_bool (dlc_started w)
            then upload_video_data_to_lims e w else Inr ((), w)"
  obtain u wu where first: "?first = Inr (u, wu)"
    using assms unfolding get_dlc_paths_def by (cases ?first) (auto split: prod.splits)
  have started: "truthy_bool (dlc_started wu)"
  proof (cases "\<not> truthy_str (spoof w) \<or> \<not> truthy_bool (dlc_started w)")
    case True
    then have "upload_video_data_to_lims e w = Inr (u, wu)" using first by simp
    then show ?thesis using upload_Inr_started by (simp add: truthy_bool_def)
  next
    case False
    then show ?thesis using first by auto
  qed
  obtain j w2 where sp: "get_spoof_ecephys_session e wu = Inr (j, w2)"
    using assms first unfolding get_dlc_paths_def
    by (cases "get_spoof_ecephys_session e wu") (auto split: prod.splits)
  obtain root where root: "lims_path e j = Some root"
    using assms first sp unfolding get_dlc_paths_def by (cases "lims_path e j") auto
  have res: "w1 = w2" "paths = glob_tracking (case_sensitive e) root (lims_listing e j)"
    using assms first sp root unfolding get_dlc_paths_def by auto
  show "truthy_bool (dlc_started w1)"
    using started get_spoof_Inr(2)[OF sp] res by simp
  show "\<exists>j root. spoof w1 = Some j \<and> lims_path e j = Some root
           \<and> paths = glob_tracking (case_sensitive e) root (lims_listing e j)"
    using get_spoof_Inr(1)[OF sp] root res by blast
qed

lemma get_dlc_paths_started:
  assumes "spoof w = Some j" and "j \<noteq> []" and "dlc_started w = Some True"
  shows "get_dlc_paths e w =
           (case lims_path e j of
              None \<Rightarrow> Inl (NoLimsPath j, w)
            | Some root \<Rightarrow> Inr (glob_tracking (case_sensitive e) root (lims_listing e j), w))"
  using assms
  by (simp add: get_dlc_paths_def truthy_str_def truthy_bool_def get_spoof_cached)

lemma get_dlc_paths_after_upload:
  assumes ns: "\<not> truthy_str (spoof w) \<or> \<not> truthy_bool (dlc_started w)"
    and job: "get_spoof_ecephys_session e w = Inr (j, w1)" and ne: "j \<noteq> []"
    and vf: "get_video_files e = Inr vf"
    and copies: "\<forall>f \<in> set (map snd vf). copy_ok e f"
    and wr: "write_text_ok e (manifest_path e j)"
    and tr: "trigger_ok e j"
  shows "get_dlc_paths e w =
           (case lims_path e j of
              None \<Rightarrow> Inl (NoLimsPath j,
                       w1\<lparr>calls := calls w1 @ upload_calls e j vf, dlc_started := Some True\<rparr>)
            | Some root \<Rightarrow> Inr (glob_tracking (case_sensitive e) root (lims_listing e j),
                       w1\<lparr>calls := calls w1 @ upload_calls e j vf, dlc_started := Some True\<rparr>))"
proof -
  let ?w' = "w1\<lparr>calls := calls w1 @ upload_calls e j vf, dlc_started := Some True\<rparr>"
  have up: "upload_video_data_to_lims e w = Inr ((), ?w')"
    using job vf copies wr tr by (rule upload_ok)
  have "spoof ?w' = Some j" using get_spoof_Inr(1)[OF job] by simp
  then have again: "get_spoof_ecephys_session e ?w' = Inr (j, ?w')"
    using ne by (rule get_spoof_cached)
  show ?thesis
    unfolding get_dlc_paths_def using ns by (simp add: up again)
qed

lemma char_eq_refl: "char_eq cs a a"
  by (simp add: char_eq_def)

lemma fnmatch_literal: "fnmatch cs (map Lit t) t"
  by (induction t) (simp_all add: char_eq_refl)

lemma fnmatch_star_here: "fnmatch cs ps s \<Longrightarrow> fnmatch cs (Star # ps) s"
  by (cases s) simp_all

lemma fnmatch_star_skip: "fnmatch cs (Star # ps) s \<Longrightarrow> fnmatch cs (Star # ps) (pre @ s)"
  by (induction pre) simp_all

lemma fnmatch_tracking: "fnmatch cs tracking_pattern (pre @ ''_tracking'')"
  unfolding tracking_pattern_def
  by (rule fnmatch_star_skip, rule fnmatch_star_here, rule fnmatch_literal)

lemma glob_tracking_member:
  assumes "(d, entries) \<in> set listing" and "fnmatch cs tracking_pattern d" and "f \<in> set entries"
  shows "joinpath (joinpath root d) f \<in> set (glob_tracking cs root listing)"
  using assms by (auto simp: glob_tracking_def intro!: bexI[of _ "(d, entries)"])

lemma find_first:
  "find P xs = Some x \<Longrightarrow> \<exists>before after. xs = before @ x # after \<and> P x \<and> (\<forall>y \<in> set before. \<not> P y)"
proof (induction xs)
  case Nil
  then show ?case by simp
next
  case (Cons a xs)
  show ?case
  proof (cases "P a")
    case True
    then have "a = x" using Cons.prems by simp
    then have "a # xs = [] @ x # xs \<and> P x \<and> (\<forall>y \<in> set []. \<not> P y)" using True by simp
    then show ?thesis by blast
  next
    case False
    then have "find P xs = Some x" using Cons.prems by simp
    then obtain before after where "xs = before @ x # after" "P x" "\<forall>y \<in> set before. \<not> P y"
      using Cons.IH by blast
    then have "a # xs = (a # before) @ x # after \<and> P x \<and> (\<forall>y \<in> set (a # before). \<not> P y)"
      using False by simp
    then show ?thesis by blast
  qed
qed

lemma name_joinpath: "name (joinpath p c) = c"
  by (simp add: joinpath_def)

lemma trigger_once: "length (filter is_trigger (upload_calls e j vf)) = 1"
  by (simp add: upload_calls_def filter_map comp_def)

lemma retrieval_result:
  assumes "get_dlc_paths e w = Inr (paths, w1)"
  shows "get_eye_tracking_paths e w =
           (case find ellipse_named paths of
              None \<Rightarrow> Inr (None, w1)
            | Some dlc_path \<Rightarrow>
                (case get_video_files e of
                   Inl err \<Rightarrow> Inl (err, w1)
                 | Inr video_files \<Rightarrow>
                     (case map_of video_files ''eye_cam_json'' of
                        None \<Rightarrow> Inl (KeyError ''eye_cam_json'', w1)
                      | Some meta \<Rightarrow>
                          Inr (Some [(''raw_eye_tracking_video_meta_data'', meta),
                                     (''raw_eye_tracking_filepath'', dlc_path)], w1))))"
proof -
  have "truthy_bool (dlc_started w1)" using assms by (rule get_dlc_paths_Inr(1))
  moreover have "ellipse_named = (\<lambda>f. str_in ''ellipse'' (name f))"
    by (rule ext) (simp add: ellipse_named_def)
  ultimately show ?thesis
    using assms by (simp add: get_eye_tracking_paths_def)
qed

lemma get_video_files_Inl:
  assumes "get_video_files e = Inl err"
  shows "err \<noteq> FileNotFound s"
proof -
  have nc0: "no_clash []" by (simp add: no_clash_def)
  from classify_loop_cases[OF nc0, of "session_str e" "glob_raw e"] assms
  show ?thesis
    by (auto simp: get_video_files_def keyed_def split: sum.splits if_splits)
qed

lemma copy_each_Inl:
  "copy_each e fs w = Inl (err, w') \<Longrightarrow> err \<noteq> FileNotFound s"
  by (induction fs arbitrary: w) (auto simp: Let_def split: if_splits)

lemma upload_Inl_kind:
  "upload_video_data_to_lims e w = Inl (err, w') \<Longrightarrow> err \<noteq> FileNotFound s"
  unfolding upload_video_data_to_lims_def copy_video_files_to_lims_incoming_dir_def
    write_platform_json_def
  by (auto simp: Let_def split: sum.splits if_splits prod.splits
           dest: get_spoof_Inl(2) get_video_files_Inl copy_each_Inl)

lemma get_dlc_paths_Inl_kind:
  "get_dlc_paths e w = Inl (err, w') \<Longrightarrow> err \<noteq> FileNotFound s"
  unfolding get_dlc_paths_def
  by (auto split: sum.splits if_splits prod.splits option.splits
           dest: get_spoof_Inl(2) upload_Inl_kind)

lemma never_file_not_found:
  "get_eye_tracking_paths e w \<noteq> Inl (FileNotFound s, wa)"
proof (cases "get_dlc_paths e w")
  case (Inl x)
  obtain err w' where x: "x = (err, w')" by (cases x)
  have "err \<noteq> FileNotFound s" using Inl x get_dlc_paths_Inl_kind by simp
  then show ?thesis using Inl x by (simp add: get_eye_tracking_paths_def)
next
  case (Inr y)
  obtain paths w1 where y: "y = (paths, w1)" by (cases y)
  have "get_dlc_paths e w = Inr (paths, w1)" using Inr y by simp
  from retrieval_result[OF this] have
    "get_eye_tracking_paths e w \<noteq> Inl (FileNotFound s, wa)
       \<or> (\<exists>err. get_video_files e = Inl err \<and> err = FileNotFound s)"
    by (auto split: option.splits sum.splits)
  then show ?thesis using get_video_files_Inl by blast
qed

lemma final_world_retrieval:
  "get_dlc_paths e w = Inr (paths, w1) \<Longrightarrow> final_world (get_eye_tracking_paths e w) = w1"
  "get_dlc_paths e w = Inl (err, w1) \<Longrightarrow> final_world (get_eye_tracking_paths e w) = w1"
proof -
  assume a: "get_dlc_paths e w = Inr (paths, w1)"
  show "final_world (get_eye_tracking_paths e w) = w1"
    unfolding retrieval_result[OF a]
    by (simp add: final_world_simps split: option.splits sum.splits)
next
  assume "get_dlc_paths e w = Inl (err, w1)"
  then show "final_world (get_eye_tracking_paths e w) = w1"
    by (simp add: get_eye_tracking_paths_def final_world_simps)
qed

section \<open>The manifest\<close>

lemma json_quote_files: \<open>json_quote ''files'' = ''"files"''\<close>
  by code_simp

lemma json_quote_filename: \<open>json_quote ''filename'' = ''"filename"''\<close>
  by code_simp

lemma dumps_manifest: "dumps (manifest_json vf) = manifest_text vf"
proof -
  have "(\<lambda>kv. json_quote (fst kv) @ '': '' @ dumps (snd kv))
          \<circ> (\<lambda>(k, v). (k, JObj [(''filename'', JStr (name v))])) = manifest_entry"
    by (rule ext) (simp add: manifest_entry_def json_quote_filename case_prod_beta)
  then show ?thesis
    by (simp add: manifest_json_def manifest_text_def json_quote_files)
qed

lemma get_video_files_Inr:
  assumes "get_video_files e = Inr vf"
  shows "vf = keyed (glob_raw e)" and "no_clash (glob_raw e)"
proof -
  have nc0: "no_clash []" by (simp add: no_clash_def)
  from classify_loop_cases[OF nc0, of "session_str e" "glob_raw e"]
  consider (ok) "classify_loop (session_str e) (glob_raw e) [] = Inr (keyed (glob_raw e))"
       "no_clash (glob_raw e)"
    | (bad) err where "classify_loop (session_str e) (glob_raw e) [] = Inl err"
    by (auto simp: keyed_def)
  then have "vf = keyed (glob_raw e) \<and> no_clash (glob_raw e)"
  proof cases
    case ok
    then show ?thesis using assms by (simp add: get_video_files_def split: if_splits)
  next
    case bad
    then show ?thesis using assms by (simp add: get_video_files_def)
  qed
  then show "vf = keyed (glob_raw e)" and "no_clash (glob_raw e)" by simp_all
qed

lemma role_key_eye_mp4: "role_key ''Eye_20230201T122604.mp4'' = ''eye_tracking''"
  by code_simp

lemma role_key_eye_json: "role_key ''Eye_20230201T122604.json'' = ''eye_cam_json''"
  by code_simp

lemma eye_pair_text:
  assumes "name p1 = ''Eye_20230201T122604.mp4''" and "name p2 = ''Eye_20230201T122604.json''"
  shows "manifest_text (keyed [p1, p2]) = claimed_manifest_text"
proof -
  have q1: \<open>json_quote ''Eye_20230201T122604.mp4'' = ''"Eye_20230201T122604.mp4"''\<close> by code_simp
  have q2: \<open>json_quote ''Eye_20230201T122604.json'' = ''"Eye_20230201T122604.json"''\<close> by code_simp
  have q3: \<open>json_quote ''eye_tracking'' = ''"eye_tracking"''\<close> by code_simp
  have q4: \<open>json_quote ''eye_cam_json'' = ''"eye_cam_json"''\<close> by code_simp
  show ?thesis
    by (simp add: manifest_text_def manifest_entry_def keyed_def key_of_def assms
          role_key_eye_mp4 role_key_eye_json q1 q2 q3 q4 claimed_manifest_text_def)
qed

text \<open>
  Claim C5, as amended. When the raw directory classifies to \<open>vf\<close> (every enumerated file
  with its role, in enumeration order), \<open>write_platform_json\<close> writes, to
  \<open><intake-dir>/<job-identifier>_platform.json\<close>, exactly the text
  \<open>{"files": {role: {"filename": basename}, ...}}\<close> over \<open>vf\<close> in that order; and when the
  enumerated files are \<open>Eye_20230201T122604.mp4\<close> and then \<open>Eye_20230201T122604.json\<close>,
  that text is the one the specification gives.
\<close>

theorem manifest_written:
  assumes "get_video_files e = Inr vf"
  shows "vf = keyed (glob_raw e)
       \<and> calls (final_world (write_platform_json e j w))
           = calls w @ [WriteText (joinpath (incoming_root e) (j @ ''_platform.json''))
                          (manifest_text vf)]
       \<and> (map name (glob_raw e) = [''Eye_20230201T122604.mp4'', ''Eye_20230201T122604.json'']
            \<longrightarrow> manifest_text vf = claimed_manifest_text)"
proof -
  have k: "vf = keyed (glob_raw e)" using assms by (rule get_video_files_Inr(1))
  have c: "calls (final_world (write_platform_json e j w))
           = calls w @ [WriteText (joinpath (incoming_root e) (j @ ''_platform.json''))
                          (manifest_text vf)]"
    using assms
    by (simp add: write_platform_json_def Let_def final_world_simps dumps_manifest)
  have t: "manifest_text vf = claimed_manifest_text"
    if "map name (glob_raw e) = [''Eye_20230201T122604.mp4'', ''Eye_20230201T122604.json'']"
  proof -
    from that obtain p1 p2 where g: "glob_raw e = [p1, p2]"
      and n: "name p1 = ''Eye_20230201T122604.mp4''" "name p2 = ''Eye_20230201T122604.json''"
      by (auto simp: map_eq_Cons_conv)
    show ?thesis unfolding k g using n by (rule eye_pair_text)
  qed
  show ?thesis using k c t by blast
qed

theorem manifest_written_witness:
  "get_video_files ex_env
     = Inr [(''eye_tracking'', joinpath (npexp_path ex_env) ''Eye_20230201T122604.mp4''),
            (''eye_cam_json'', joinpath (npexp_path ex_env) ''Eye_20230201T122604.json'')]
   \<and> map name (glob_raw ex_env) = [''Eye_20230201T122604.mp4'', ''Eye_20230201T122604.json'']
   \<and> calls (final_world (write_platform_json ex_env ex_job fresh))
       = [WriteText (Path [''allen'', ''lims'', ''incoming''] (ex_job @ ''_platform.json''))
            claimed_manifest_text]"
proof -
  have h: "get_video_files ex_env
     = Inr [(''eye_tracking'', joinpath (npexp_path ex_env) ''Eye_20230201T122604.mp4''),
            (''eye_cam_json'', joinpath (npexp_path ex_env) ''Eye_20230201T122604.json'')]"
    by code_simp
  have g: "map name (glob_raw ex_env) = [''Eye_20230201T122604.mp4'', ''Eye_20230201T122604.json'']"
    by code_simp
  have f: "calls fresh = []" by code_simp
  have i: "joinpath (incoming_root ex_env) (ex_job @ ''_platform.json'')
             = Path [''allen'', ''lims'', ''incoming''] (ex_job @ ''_platform.json'')"
    by code_simp
  note mw = manifest_written[OF h, of ex_job fresh]
  have t: "manifest_text
             [(''eye_tracking'', joinpath (npexp_path ex_env) ''Eye_20230201T122604.mp4''),
              (''eye_cam_json'', joinpath (npexp_path ex_env) ''Eye_20230201T122604.json'')]
           = claimed_manifest_text"
    using mw g by blast
  have c: "calls (final_world (write_platform_json ex_env ex_job fresh))
       = calls fresh @ [WriteText (joinpath (incoming_root ex_env) (ex_job @ ''_platform.json''))
            (manifest_text
             [(''eye_tracking'', joinpath (npexp_path ex_env) ''Eye_20230201T122604.mp4''),
              (''eye_cam_json'', joinpath (npexp_path ex_env) ''Eye_20230201T122604.json'')])]"
    using mw by blast
  show ?thesis using h g c by (simp only: t f i append_Nil simp_thms)
qed

text \<open>
  Claim C5 as stated fails: when the two files are the only matches and the metadata file
  is enumerated first, the written text has \<open>eye_cam_json\<close> first and differs from the
  text the specification gives.
\<close>

theorem manifest_order_counterexample:
  "map name (glob_raw ex_json_first) = [''Eye_20230201T122604.json'', ''Eye_20230201T122604.mp4'']
   \<and> write_platform_json ex_json_first ex_job fresh
       = Inr (Path [''allen'', ''lims'', ''incoming''] ''1250000000_366122_20230201_platform.json'',
              \<lparr>spoof = None, dlc_started = None,
                calls = [WriteText
                  (Path [''allen'', ''lims'', ''incoming''] ''1250000000_366122_20230201_platform.json'')
                  json_first_manifest_text]\<rparr>)
   \<and> json_first_manifest_text \<noteq> claimed_manifest_text"
  by code_simp

section \<open>Retrieval\<close>

lemma fnmatch_lits: "fnmatch cs (map Lit t) s \<longleftrightarrow> list_all2 (char_eq cs) t s"
proof (induction t arbitrary: s)
  case Nil
  then show ?case by simp
next
  case (Cons a t)
  then show ?case by (cases s) simp_all
qed

lemma fnmatch_star: "fnmatch cs (Star # ps) s \<longleftrightarrow> (\<exists>k \<le> length s. fnmatch cs ps (drop k s))"
proof (induction s)
  case Nil
  then show ?case by simp
next
  case (Cons c t)
  have "(\<exists>k \<le> length (c # t). fnmatch cs ps (drop k (c # t)))
          \<longleftrightarrow> fnmatch cs ps (c # t) \<or> (\<exists>k \<le> length t. fnmatch cs ps (drop k t))"
  proof
    assume "\<exists>k \<le> length (c # t). fnmatch cs ps (drop k (c # t))"
    then obtain k where k: "k \<le> length (c # t)" "fnmatch cs ps (drop k (c # t))" by blast
    show "fnmatch cs ps (c # t) \<or> (\<exists>k \<le> length t. fnmatch cs ps (drop k t))"
    proof (cases k)
      case 0
      then show ?thesis using k by simp
    next
      case (Suc m)
      then have "m \<le> length t \<and> fnmatch cs ps (drop m t)" using k by simp
      then show ?thesis by blast
    qed
  next
    assume "fnmatch cs ps (c # t) \<or> (\<exists>k \<le> length t. fnmatch cs ps (drop k t))"
    then show "\<exists>k \<le> length (c # t). fnmatch cs ps (drop k (c # t))"
    proof
      assume "fnmatch cs ps (c # t)"
      then have "0 \<le> length (c # t) \<and> fnmatch cs ps (drop 0 (c # t))" by simp
      then show ?thesis by blast
    next
      assume "\<exists>k \<le> length t. fnmatch cs ps (drop k t)"
      then obtain k where "k \<le> length t" "fnmatch cs ps (drop k t)" by blast
      then have "Suc k \<le> length (c # t) \<and> fnmatch cs ps (drop (Suc k) (c # t))" by simp
      then show ?thesis by blast
    qed
  qed
  then show ?case using Cons.IH by simp
qed

lemma list_all2_char_eq:
  "list_all2 (char_eq cs) t s \<longleftrightarrow> (if cs then s = t else lower s = lower t)"
proof (cases cs)
  case True
  then have "char_eq cs = (=)" by (intro ext) (simp add: char_eq_def)
  then have "list_all2 (char_eq cs) t s \<longleftrightarrow> t = s" by (simp add: list_all2_eq)
  then show ?thesis using True by auto
next
  case False
  then have "char_eq cs = (\<lambda>a c. lower_char a = lower_char c)"
    by (intro ext) (simp add: char_eq_def)
  moreover have "list_all2 (\<lambda>a c. lower_char a = lower_char c) t s
                   \<longleftrightarrow> map lower_char t = map lower_char s"
  proof (induction t arbitrary: s)
    case Nil
    then show ?case by simp
  next
    case (Cons a t)
    then show ?case by (cases s) simp_all
  qed
  ultimately show ?thesis using False by (auto simp: lower_def)
qed

lemma lower_tracking: "lower ''_tracking'' = ''_tracking''"
  by code_simp

lemma fnmatch_tracking_iff: "fnmatch cs tracking_pattern d \<longleftrightarrow> ends_in_tracking cs d"
proof -
  let ?t = "''_tracking''"
  have len: "length ?t = 9" by simp
  have "fnmatch cs tracking_pattern d
          \<longleftrightarrow> (\<exists>k \<le> length d. list_all2 (char_eq cs) ?t (drop k d))"
    unfolding tracking_pattern_def fnmatch_star fnmatch_lits ..
  also have "\<dots> \<longleftrightarrow> 9 \<le> length d \<and> list_all2 (char_eq cs) ?t (drop (length d - 9) d)"
  proof
    assume "\<exists>k \<le> length d. list_all2 (char_eq cs) ?t (drop k d)"
    then obtain k where k: "k \<le> length d" "list_all2 (char_eq cs) ?t (drop k d)" by blast
    from k(2) have "length ?t = length (drop k d)" by (rule list_all2_lengthD)
    then have "length d - k = 9" by simp
    then have "9 \<le> length d" "k = length d - 9" using k(1) by auto
    then show "9 \<le> length d \<and> list_all2 (char_eq cs) ?t (drop (length d - 9) d)"
      using k(2) by simp
  next
    assume "9 \<le> length d \<and> list_all2 (char_eq cs) ?t (drop (length d - 9) d)"
    then have "length d - 9 \<le> length d \<and> list_all2 (char_eq cs) ?t (drop (length d - 9) d)"
      by simp
    then show "\<exists>k \<le> length d. list_all2 (char_eq cs) ?t (drop k d)" by blast
  qed
  also have "\<dots> \<longleftrightarrow> ends_in_tracking cs d"
    unfolding ends_in_tracking_def Let_def list_all2_char_eq lower_tracking by auto
  finally show ?thesis .
qed

lemma glob_tracking_spec: "glob_tracking cs root listing = tracking_outputs cs root listing"
proof -
  have "(\<lambda>(d, entries). fnmatch cs tracking_pattern d)
          = (\<lambda>(d, entries :: string list). ends_in_tracking cs d)"
    by (simp add: fnmatch_tracking_iff)
  moreover have "\<And>d. joinpath (joinpath root d) = (\<lambda>f. Path (parent root @ [name root, d]) f)"
    by (intro ext) (simp add: joinpath_def)
  ultimately show ?thesis by (simp add: glob_tracking_def tracking_outputs_def)
qed

lemma ends_in_tracking_suffix: "ends_in_tracking cs (pre @ ''_tracking'')"
  using fnmatch_tracking[of cs pre] by (simp only: fnmatch_tracking_iff)

lemma role_key_eye_cam_json:
  "role_key nm = ''eye_cam_json'' \<Longrightarrow> spec_roles nm = [''eye_cam_json'']"
  by (auto simp: spec_roles_def role_key_def has_cue_def split: if_splits)

lemma copy_each_fails:
  "\<forall>g \<in> set before. copy_ok e g \<Longrightarrow> \<not> copy_ok e f \<Longrightarrow>
   copy_each e (before @ f # after) w
     = Inl (CopyError f,
            w\<lparr>calls := calls w @ map (\<lambda>g. Copy g (incoming_root e)) (before @ [f])\<rparr>)"
  by (induction before arbitrary: w) (simp_all add: Let_def)

lemma upload_registry_fails:
  "get_spoof_ecephys_session e w = Inl (err, wa) \<Longrightarrow>
   upload_video_data_to_lims e w = Inl (err, wa)"
  by (simp add: upload_video_data_to_lims_def)

lemma spoof_rewrite:
  assumes "get_spoof_ecephys_session e w = Inr (j, w1)"
  shows "w1\<lparr>spoof := Some j\<rparr> = w1"
  using get_spoof_Inr(1)[OF assms] by (cases w1) simp

lemma upload_classify_fails:
  assumes "get_spoof_ecephys_session e w = Inr (j, w1)" and "get_video_files e = Inl err"
  shows "upload_video_data_to_lims e w = Inl (err, w1)"
  using assms
  by (simp add: upload_video_data_to_lims_def spoof_rewrite
        copy_video_files_to_lims_incoming_dir_def)

lemma upload_copy_fails:
  assumes "get_spoof_ecephys_session e w = Inr (j, w1)" and "get_video_files e = Inr vf"
    and "map snd vf = before @ f # after" and "\<forall>g \<in> set before. copy_ok e g"
    and "\<not> copy_ok e f"
  shows "upload_video_data_to_lims e w
           = Inl (CopyError f,
                  w1\<lparr>calls := calls w1 @ map (\<lambda>g. Copy g (incoming_root e)) (before @ [f])\<rparr>)"
  using assms(1,2) copy_each_fails[OF assms(4,5), of after w1]
  by (simp add: upload_video_data_to_lims_def spoof_rewrite
        copy_video_files_to_lims_incoming_dir_def assms(3))

lemma copy_video_files_ok:
  assumes "get_video_files e = Inr vf" and "\<forall>f \<in> set (map snd vf). copy_ok e f"
  shows "copy_video_files_to_lims_incoming_dir e w
           = Inr ((), w\<lparr>calls := calls w @ map (\<lambda>f. Copy f (incoming_root e)) (map snd vf)\<rparr>)"
  using assms(1) copy_each_ok[OF assms(2)]
  by (simp add: copy_video_files_to_lims_incoming_dir_def)

lemma upload_write_fails:
  assumes "get_spoof_ecephys_session e w = Inr (j, w1)" and "get_video_files e = Inr vf"
    and "\<forall>f \<in> set (map snd vf). copy_ok e f"
    and "\<not> write_text_ok e (manifest_path e j)"
  shows "upload_video_data_to_lims e w
           = Inl (WriteError (manifest_path e j),
                  w1\<lparr>calls := calls w1 @ map (\<lambda>f. Copy f (incoming_root e)) (map snd vf)
                                @ [WriteText (manifest_path e j) (dumps (manifest_json vf))]\<rparr>)"
  using assms(1,2,4)
  by (simp add: upload_video_data_to_lims_def spoof_rewrite
        copy_video_files_ok[OF assms(2,3)] write_platform_json_def manifest_path_def Let_def)

lemma upload_trigger_fails:
  assumes "get_spoof_ecephys_session e w = Inr (j, w1)" and "get_video_files e = Inr vf"
    and "\<forall>f \<in> set (map snd vf). copy_ok e f"
    and "write_text_ok e (manifest_path e j)" and "\<not> trigger_ok e j"
  shows "upload_video_data_to_lims e w
           = Inl (TriggerError j, w1\<lparr>calls := calls w1 @ upload_calls e j vf\<rparr>)"
  using assms(1,5)
  by (simp add: upload_video_data_to_lims_def spoof_rewrite
        copy_video_files_ok[OF assms(2,3)] write_platform_json_ok[OF assms(2,4)]
        upload_calls_def Let_def)

lemma upload_error_propagates:
  assumes "\<not> truthy_str (spoof w) \<or> \<not> truthy_bool (dlc_started w)"
    and "upload_video_data_to_lims e w = Inl x"
  shows "get_eye_tracking_paths e w = Inl x"
  using assms by (auto simp: get_eye_tracking_paths_def get_dlc_paths_def)

lemma upload_Inr_spoof:
  assumes sp: "spoof w = Some j" and ne: "j \<noteq> []"
    and up: "upload_video_data_to_lims e w = Inr (u, w1)"
  shows "spoof w1 = Some j"
proof -
  have job: "get_spoof_ecephys_session e w = Inr (j, w)" using sp ne by (rule get_spoof_cached)
  have w2: "w\<lparr>spoof := Some j\<rparr> = w" using job by (rule spoof_rewrite)
  obtain u3 w3 where cp: "copy_video_files_to_lims_incoming_dir e w = Inr (u3, w3)"
    using up job w2
    by (cases "copy_video_files_to_lims_incoming_dir e w")
       (auto simp: upload_video_data_to_lims_def)
  have s3: "spoof w3 = Some j"
    using copy_video_files_state[of e w] cp sp by (simp add: final_world_simps)
  obtain mf w4 where wr: "write_platform_json e j w3 = Inr (mf, w4)"
    using up job w2 cp
    by (cases "write_platform_json e j w3") (auto simp: upload_video_data_to_lims_def)
  have s4: "spoof w4 = Some j"
    using write_platform_json_state[of e j w3] wr s3 by (simp add: final_world_simps)
  have "w1 = w4\<lparr>calls := calls w4 @ [Trigger j], dlc_started := Some True\<rparr>"
    using up job w2 cp wr
    by (simp add: upload_video_data_to_lims_def Let_def split: if_splits)
  then show ?thesis using s4 by simp
qed

lemma upload_then_listing:
  assumes ns: "\<not> truthy_str (spoof w) \<or> \<not> truthy_bool (dlc_started w)"
    and job: "get_spoof_ecephys_session e w = Inr (j, w1)" and ne: "j \<noteq> []"
    and vf: "get_video_files e = Inr vf"
    and copies: "\<forall>f \<in> set (map snd vf). copy_ok e f"
    and wr: "write_text_ok e (manifest_path e j)"
    and tr: "trigger_ok e j"
  shows "(lims_path e j = None \<longrightarrow>
            get_eye_tracking_paths e w
              = Inl (NoLimsPath j,
                     w1\<lparr>calls := calls w1 @ upload_calls e j vf, dlc_started := Some True\<rparr>))
       \<and> (\<forall>root. lims_path e j = Some root
             \<and> find ellipse_named (glob_tracking (case_sensitive e) root (lims_listing e j)) = None
            \<longrightarrow> get_eye_tracking_paths e w
              = Inr (None,
                     w1\<lparr>calls := calls w1 @ upload_calls e j vf, dlc_started := Some True\<rparr>))
       \<and> length (filter is_trigger (upload_calls e j vf)) = 1"
proof -
  let ?w' = "w1\<lparr>calls := calls w1 @ upload_calls e j vf, dlc_started := Some True\<rparr>"
  note dlc = get_dlc_paths_after_upload[OF ns job ne vf copies wr tr]
  have a: "get_eye_tracking_paths e w = Inl (NoLimsPath j, ?w')" if "lims_path e j = None"
    using dlc that by (simp add: get_eye_tracking_paths_def)
  have b: "get_eye_tracking_paths e w = Inr (None, ?w')"
    if "lims_path e j = Some root"
      and "find ellipse_named (glob_tracking (case_sensitive e) root (lims_listing e j)) = None"
    for root
  proof -
    have "get_dlc_paths e w
            = Inr (glob_tracking (case_sensitive e) root (lims_listing e j), ?w')"
      using dlc that(1) by simp
    from retrieval_result[OF this] show ?thesis using that(2) by simp
  qed
  show ?thesis using a b trigger_once by blast
qed

text \<open>
  Claim C2, as amended. For a session with \<open>spoof\<close> absent or empty or \<open>dlc_started\<close>
  absent or false, the retriever runs the upload, and an error the upload raises is the
  error the retriever raises, with the state the upload left. The upload raises when the
  registry fails, when the raw directory does not classify, at the first copy that fails,
  when writing the manifest fails and when writing the trigger fails, each time with the
  calls made so far and without setting \<open>dlc_started\<close>. When every step succeeds, the
  retriever has made the calls of exactly one upload, with one trigger, and set
  \<open>dlc_started\<close>; then it raises the assertion error when the job has no output root,
  and returns the pending outcome when the job has an output root without a result
  candidate.
\<close>

theorem not_started_uploads_once:
  assumes ns: "\<not> truthy_str (spoof w) \<or> \<not> truthy_bool (dlc_started w)"
  shows "(\<forall>x. upload_video_data_to_lims e w = Inl x \<longrightarrow> get_eye_tracking_paths e w = Inl x)
   \<and> (\<forall>err wa. get_spoof_ecephys_session e w = Inl (err, wa)
         \<longrightarrow> upload_video_data_to_lims e w = Inl (err, wa))
   \<and> (\<forall>j w1. get_spoof_ecephys_session e w = Inr (j, w1) \<longrightarrow>
         (\<forall>err. get_video_files e = Inl err
            \<longrightarrow> upload_video_data_to_lims e w = Inl (err, w1))
       \<and> (\<forall>vf. get_video_files e = Inr vf \<longrightarrow>
             (\<forall>before f after.
                 map snd vf = before @ f # after \<and> (\<forall>g \<in> set before. copy_ok e g)
                 \<and> \<not> copy_ok e f
                \<longrightarrow> upload_video_data_to_lims e w
                     = Inl (CopyError f,
                            w1\<lparr>calls := calls w1
                                 @ map (\<lambda>g. Copy g (incoming_root e)) (before @ [f])\<rparr>))
           \<and> ((\<forall>f \<in> set (map snd vf). copy_ok e f) \<longrightarrow>
                 (\<not> write_text_ok e (manifest_path e j)
                    \<longrightarrow> upload_video_data_to_lims e w
                         = Inl (WriteError (manifest_path e j),
                                w1\<lparr>calls := calls w1
                                     @ map (\<lambda>f. Copy f (incoming_root e)) (map snd vf)
                                     @ [WriteText (manifest_path e j) (manifest_text vf)]\<rparr>))
               \<and> (write_text_ok e (manifest_path e j) \<and> \<not> trigger_ok e j
                    \<longrightarrow> upload_video_data_to_lims e w
                         = Inl (TriggerError j, w1\<lparr>calls := calls w1 @ upload_calls e j vf\<rparr>))
               \<and> (write_text_ok e (manifest_path e j) \<and> trigger_ok e j \<and> j \<noteq> []
                    \<longrightarrow> (lims_path e j = None
                           \<longrightarrow> get_eye_tracking_paths e w
                                = Inl (NoLimsPath j,
                                       w1\<lparr>calls := calls w1 @ upload_calls e j vf,
                                            dlc_started := Some True\<rparr>))
                       \<and> (\<forall>root. lims_path e j = Some root
                              \<and> find ellipse_named
                                   (tracking_outputs (case_sensitive e) root (lims_listing e j))
                                  = None
                           \<longrightarrow> get_eye_tracking_paths e w
                                = Inr (None,
                                       w1\<lparr>calls := calls w1 @ upload_calls e j vf,
                                            dlc_started := Some True\<rparr>))
                       \<and> length (filter is_trigger (upload_calls e j vf)) = 1))))"
proof -
  have p1: "\<forall>x. upload_video_data_to_lims e w = Inl x \<longrightarrow> get_eye_tracking_paths e w = Inl x"
    using upload_error_propagates[OF ns] by blast
  have p2: "\<forall>err wa. get_spoof_ecephys_session e w = Inl (err, wa)
         \<longrightarrow> upload_video_data_to_lims e w = Inl (err, wa)"
    using upload_registry_fails by blast
  have p3: "upload_video_data_to_lims e w = Inl (err, w1)"
    if "get_spoof_ecephys_session e w = Inr (j, w1)" "get_video_files e = Inl err" for j w1 err
    using that by (rule upload_classify_fails)
  have p4: "upload_video_data_to_lims e w
                     = Inl (CopyError f,
                            w1\<lparr>calls := calls w1
                                 @ map (\<lambda>g. Copy g (incoming_root e)) (before @ [f])\<rparr>)"
    if "get_spoof_ecephys_session e w = Inr (j, w1)" "get_video_files e = Inr vf"
      "map snd vf = before @ f # after \<and> (\<forall>g \<in> set before. copy_ok e g) \<and> \<not> copy_ok e f"
    for j w1 vf before f after
    using that upload_copy_fails[of e w j w1 vf before f after] by blast
  have p5: "upload_video_data_to_lims e w
                         = Inl (WriteError (manifest_path e j),
                                w1\<lparr>calls := calls w1
                                     @ map (\<lambda>f. Copy f (incoming_root e)) (map snd vf)
                                     @ [WriteText (manifest_path e j) (manifest_text vf)]\<rparr>)"
    if "get_spoof_ecephys_session e w = Inr (j, w1)" "get_video_files e = Inr vf"
      "\<forall>f \<in> set (map snd vf). copy_ok e f" "\<not> write_text_ok e (manifest_path e j)"
    for j w1 vf
    using upload_write_fails[OF that] by (simp only: dumps_manifest)
  have p6: "upload_video_data_to_lims e w
              = Inl (TriggerError j, w1\<lparr>calls := calls w1 @ upload_calls e j vf\<rparr>)"
    if "get_spoof_ecephys_session e w = Inr (j, w1)" "get_video_files e = Inr vf"
      "\<forall>f \<in> set (map snd vf). copy_ok e f"
      "write_text_ok e (manifest_path e j) \<and> \<not> trigger_ok e j"
    for j w1 vf
    using that upload_trigger_fails[of e w j w1 vf] by blast
  have p7: "(lims_path e j = None
                           \<longrightarrow> get_eye_tracking_paths e w
                                = Inl (NoLimsPath j,
                                       w1\<lparr>calls := calls w1 @ upload_calls e j vf,
                                            dlc_started := Some True\<rparr>))
                       \<and> (\<forall>root. lims_path e j = Some root
                              \<and> find ellipse_named
                                   (tracking_outputs (case_sensitive e) root (lims_listing e j))
                                  = None
                           \<longrightarrow> get_eye_tracking_paths e w
                                = Inr (None,
                                       w1\<lparr>calls := calls w1 @ upload_calls e j vf,
                                            dlc_started := Some True\<rparr>))
                       \<and> length (filter is_trigger (upload_calls e j vf)) = 1"
    if "get_spoof_ecephys_session e w = Inr (j, w1)" "get_video_files e = Inr vf"
      "\<forall>f \<in> set (map snd vf). copy_ok e f"
      "write_text_ok e (manifest_path e j) \<and> trigger_ok e j \<and> j \<noteq> []"
    for j w1 vf
  proof -
    have wr: "write_text_ok e (manifest_path e j)" and tr: "trigger_ok e j" and ne: "j \<noteq> []"
      using that(4) by simp_all
    from upload_then_listing[OF ns that(1) ne that(2,3) wr tr]
    show ?thesis unfolding glob_tracking_spec .
  qed
  show ?thesis
    apply (intro conjI allI impI)
    subgoal by (rule p1[rule_format])
    subgoal by (rule p2[rule_format])
    subgoal by (rule p3)
    subgoal by (rule p4)
    subgoal by (rule p5)
    subgoal by (rule p6)
    subgoal using p7 by blast
    subgoal using p7 by blast
    subgoal using p7 by blast
    done
qed

theorem not_started_uploads_once_witness:
  "\<not> truthy_str (spoof fresh)
   \<and> get_spoof_ecephys_session ex_pending fresh
       = Inr (ex_job, \<lparr>spoof = Some ex_job, dlc_started = None,
                       calls = [Generate 366122 ''ben.hardcastle'']\<rparr>)
   \<and> ex_job \<noteq> []
   \<and> get_video_files ex_pending = Inr [(''eye_tracking'', eye_mp4), (''eye_cam_json'', eye_json)]
   \<and> list_all (copy_ok ex_pending) [eye_mp4, eye_json]
   \<and> write_text_ok ex_pending (manifest_path ex_pending ex_job)
   \<and> trigger_ok ex_pending ex_job
   \<and> lims_path ex_pending ex_job = Some (Path [''allen'', ''lims'', ''output''] ex_job)
   \<and> tracking_outputs (case_sensitive ex_pending) (Path [''allen'', ''lims'', ''output''] ex_job)
        (lims_listing ex_pending ex_job)
       = [Path [''allen'', ''lims'', ''output'', ex_job, ''eye_tracking''] ''points.h5'']
   \<and> get_eye_tracking_paths ex_pending fresh
       = Inr (None, \<lparr>spoof = Some ex_job, dlc_started = Some True,
                      calls = Generate 366122 ''ben.hardcastle'' # ex_upload_calls\<rparr>)
   \<and> \<not> write_text_ok ex_write_fails (manifest_path ex_write_fails ex_job)
   \<and> get_eye_tracking_paths ex_write_fails fresh
       = Inl (WriteError ex_manifest,
              \<lparr>spoof = Some ex_job, dlc_started = None,
                calls = [Generate 366122 ''ben.hardcastle'',
                         Copy eye_mp4 (Path [''allen'', ''lims''] ''incoming''),
                         Copy eye_json (Path [''allen'', ''lims''] ''incoming''),
                         WriteText ex_manifest claimed_manifest_text]\<rparr>)"
proof -
  let ?w1 = "\<lparr>spoof = Some ex_job, dlc_started = None,
              calls = [Generate 366122 ''ben.hardcastle'']\<rparr>"
  let ?vf = "[(''eye_tracking'', eye_mp4), (''eye_cam_json'', eye_json)]"
  let ?root = "Path [''allen'', ''lims'', ''output''] ex_job"
  have ns0: "\<not> truthy_str (spoof fresh)" by code_simp
  then have ns: "\<not> truthy_str (spoof fresh) \<or> \<not> truthy_bool (dlc_started fresh)" by simp
  have job: "get_spoof_ecephys_session ex_pending fresh = Inr (ex_job, ?w1)" by code_simp
  have ne: "ex_job \<noteq> []" by code_simp
  have vf: "get_video_files ex_pending = Inr ?vf" by code_simp
  have copies: "\<forall>f \<in> set (map snd ?vf). copy_ok ex_pending f" by code_simp
  then have copies': "list_all (copy_ok ex_pending) [eye_mp4, eye_json]" by simp
  have wr: "write_text_ok ex_pending (manifest_path ex_pending ex_job)" by code_simp
  have tr: "trigger_ok ex_pending ex_job" by code_simp
  have root: "lims_path ex_pending ex_job = Some ?root" by code_simp
  have outs: "tracking_outputs (case_sensitive ex_pending) ?root (lims_listing ex_pending ex_job)
       = [Path [''allen'', ''lims'', ''output'', ex_job, ''eye_tracking''] ''points.h5'']"
    by code_simp
  have none: "find ellipse_named
                (tracking_outputs (case_sensitive ex_pending) ?root (lims_listing ex_pending ex_job))
              = None"
    by code_simp
  have w': "?w1\<lparr>calls := calls ?w1 @ upload_calls ex_pending ex_job ?vf, dlc_started := Some True\<rparr>
            = \<lparr>spoof = Some ex_job, dlc_started = Some True,
                calls = Generate 366122 ''ben.hardcastle'' # ex_upload_calls\<rparr>"
    by code_simp
  note th = not_started_uploads_once[OF ns, of ex_pending]
  from th job vf copies wr tr ne root none
  have "get_eye_tracking_paths ex_pending fresh
       = Inr (None, ?w1\<lparr>calls := calls ?w1 @ upload_calls ex_pending ex_job ?vf,
                          dlc_started := Some True\<rparr>)"
    by blast
  then have res: "get_eye_tracking_paths ex_pending fresh
       = Inr (None, \<lparr>spoof = Some ex_job, dlc_started = Some True,
                      calls = Generate 366122 ''ben.hardcastle'' # ex_upload_calls\<rparr>)"
    by (simp only: w')
  have nwr: "\<not> write_text_ok ex_write_fails (manifest_path ex_write_fails ex_job)" by code_simp
  have fail: "get_eye_tracking_paths ex_write_fails fresh
       = Inl (WriteError ex_manifest,
              \<lparr>spoof = Some ex_job, dlc_started = None,
                calls = [Generate 366122 ''ben.hardcastle'',
                         Copy eye_mp4 (Path [''allen'', ''lims''] ''incoming''),
                         Copy eye_json (Path [''allen'', ''lims''] ''incoming''),
                         WriteText ex_manifest claimed_manifest_text]\<rparr>)"
    by code_simp
  show ?thesis using ns0 job ne vf copies' wr tr root outs res nwr fail by blast
qed

text \<open>
  Claim C2 as stated fails: for a fresh session whose upload succeeds and whose new job has
  no output root yet, the retriever raises the assertion error instead of returning the
  pending outcome.
\<close>

theorem fresh_session_counterexample:
  "\<not> truthy_str (spoof fresh)
   \<and> lims_listing ex_no_root ex_job = []
   \<and> get_eye_tracking_paths ex_no_root fresh
       = Inl (NoLimsPath ex_job,
              \<lparr>spoof = Some ex_job, dlc_started = Some True,
                calls = Generate 366122 ''ben.hardcastle'' # ex_upload_calls\<rparr>)"
  by code_simp

text \<open>
  Claim C3, as amended. For a session whose job \<open>j\<close> is recorded and whose
  \<open>dlc_started\<close> is true: when the job has no output root the retriever raises the
  assertion error; when it has an output root without a result candidate the retriever
  returns the pending outcome and leaves the state as it is, so no upload is made. The
  \<open>FileNotFoundError\<close> is never raised, for any session.
\<close>

theorem started_without_output_is_pending:
  assumes "spoof w = Some j" and "j \<noteq> []" and "dlc_started w = Some True"
  shows "(lims_path e j = None \<longrightarrow> get_eye_tracking_paths e w = Inl (NoLimsPath j, w))
       \<and> (\<forall>root. lims_path e j = Some root
             \<and> find ellipse_named (glob_tracking (case_sensitive e) root (lims_listing e j)) = None
            \<longrightarrow> get_eye_tracking_paths e w = Inr (None, w))
       \<and> (\<forall>e' w' s wa. get_eye_tracking_paths e' w' \<noteq> Inl (FileNotFound s, wa))"
proof -
  note dlc = get_dlc_paths_started[OF assms, of e]
  have a: "get_eye_tracking_paths e w = Inl (NoLimsPath j, w)" if "lims_path e j = None"
    using dlc that by (simp add: get_eye_tracking_paths_def)
  have b: "get_eye_tracking_paths e w = Inr (None, w)"
    if "lims_path e j = Some root"
      and "find ellipse_named (glob_tracking (case_sensitive e) root (lims_listing e j)) = None"
    for root
  proof -
    have "get_dlc_paths e w = Inr (glob_tracking (case_sensitive e) root (lims_listing e j), w)"
      using dlc that(1) by simp
    from retrieval_result[OF this] show ?thesis using that(2) by simp
  qed
  show ?thesis using a b never_file_not_found by blast
qed

theorem started_without_output_is_pending_witness:
  "spoof started = Some ex_job \<and> ex_job \<noteq> [] \<and> dlc_started started = Some True
   \<and> lims_path ex_pending ex_job = Some (Path [''allen'', ''lims'', ''output''] ex_job)
   \<and> glob_tracking (case_sensitive ex_pending) (Path [''allen'', ''lims'', ''output''] ex_job)
        (lims_listing ex_pending ex_job)
       = [Path [''allen'', ''lims'', ''output'', ex_job, ''eye_tracking''] ''points.h5'']
   \<and> get_eye_tracking_paths ex_pending started = Inr (None, started)"
proof -
  let ?root = "Path [''allen'', ''lims'', ''output''] ex_job"
  have sp: "spoof started = Some ex_job" by code_simp
  have ne: "ex_job \<noteq> []" by code_simp
  have st: "dlc_started started = Some True" by code_simp
  have root: "lims_path ex_pending ex_job = Some ?root" by code_simp
  have glob: "glob_tracking (case_sensitive ex_pending) ?root (lims_listing ex_pending ex_job)
       = [Path [''allen'', ''lims'', ''output'', ex_job, ''eye_tracking''] ''points.h5'']"
    by code_simp
  have none: "find ellipse_named
                (glob_tracking (case_sensitive ex_pending) ?root (lims_listing ex_pending ex_job))
              = None"
    by code_simp
  from started_without_output_is_pending[OF sp ne st, of ex_pending] root none
  have "get_eye_tracking_paths ex_pending started = Inr (None, started)" by blast
  then show ?thesis using sp ne st root glob by blast
qed

text \<open>
  Claim C3 as stated fails: for a started session whose job has no output root, no result
  candidate exists and the retriever raises the assertion error instead of returning the
  pending outcome.
\<close>

theorem started_session_counterexample:
  "spoof started = Some ex_job \<and> dlc_started started = Some True
   \<and> lims_listing ex_no_root ex_job = []
   \<and> get_eye_tracking_paths ex_no_root started = Inl (NoLimsPath ex_job, started)"
  by code_simp

text \<open>
  Claim C4, as amended. For a session whose recorded job \<open>j\<close> has an output root with an
  entry whose name contains \<open>ellipse\<close> under a subdirectory whose name ends in
  \<open>_tracking\<close>: let \<open>out\<close> be the first such entry of the output listing. When the
  session is started, or the upload it triggers completes, the retriever re-classifies the
  raw directory; it raises the classification error when that fails, raises
  \<open>KeyError\<close> when the classification holds no \<open>eye_cam_json\<close>, and otherwise returns
  exactly two entries: the \<open>eye_cam_json\<close> file, an enumerated \<open>.json\<close> file of the raw
  directory whose only cue is \<open>eye\<close>, and \<open>out\<close>. An error raised by the upload is
  raised by the retriever.
\<close>

theorem ready_returns_bundle:
  assumes job: "spoof w = Some j" "j \<noteq> []"
    and root: "lims_path e j = Some root"
    and dir: "(pre @ ''_tracking'', entries) \<in> set (lims_listing e j)"
    and entry: "f \<in> set entries" "str_in ''ellipse'' f"
  shows "\<exists>before out after.
           tracking_outputs (case_sensitive e) root (lims_listing e j) = before @ out # after
         \<and> ellipse_named out \<and> (\<forall>p \<in> set before. \<not> ellipse_named p)
         \<and> (\<forall>w1. truthy_bool (dlc_started w) \<and> w1 = w
                  \<or> \<not> truthy_bool (dlc_started w) \<and> upload_video_data_to_lims e w = Inr ((), w1)
              \<longrightarrow>
                (\<forall>err. get_video_files e = Inl err
                   \<longrightarrow> get_eye_tracking_paths e w = Inl (err, w1))
              \<and> (\<forall>vf. get_video_files e = Inr vf \<and> map_of vf ''eye_cam_json'' = None
                   \<longrightarrow> get_eye_tracking_paths e w = Inl (KeyError ''eye_cam_json'', w1))
              \<and> (\<forall>vf meta. get_video_files e = Inr vf \<and> map_of vf ''eye_cam_json'' = Some meta
                   \<longrightarrow> get_eye_tracking_paths e w
                         = Inr (Some [(''raw_eye_tracking_video_meta_data'', meta),
                                      (''raw_eye_tracking_filepath'', out)], w1)
                       \<and> meta \<in> set (glob_raw e)
                       \<and> spec_roles (name meta) = [''eye_cam_json'']))
         \<and> (\<forall>x. \<not> truthy_bool (dlc_started w) \<and> upload_video_data_to_lims e w = Inl x
                \<longrightarrow> get_eye_tracking_paths e w = Inl x)"
proof -
  let ?paths = "tracking_outputs (case_sensitive e) root (lims_listing e j)"
  let ?cand = "joinpath (joinpath root (pre @ ''_tracking'')) f"
  have "?cand \<in> set (glob_tracking (case_sensitive e) root (lims_listing e j))"
    using dir fnmatch_tracking entry(1) by (rule glob_tracking_member)
  then have mem: "?cand \<in> set ?paths" by (simp only: glob_tracking_spec)
  have "ellipse_named ?cand" using entry(2) by (simp add: ellipse_named_def name_joinpath)
  then have "find ellipse_named ?paths \<noteq> None" using mem by (auto simp: find_None_iff)
  then obtain out where out: "find ellipse_named ?paths = Some out" by auto
  from find_first[OF out] obtain before after
    where split: "?paths = before @ out # after" "ellipse_named out"
      "\<forall>p \<in> set before. \<not> ellipse_named p"
    by blast
  have sp: "truthy_str (spoof w)" using job by (simp add: truthy_str_def)
  have listing: "get_dlc_paths e w = Inr (?paths, w1)"
    if "truthy_bool (dlc_started w) \<and> w1 = w
        \<or> \<not> truthy_bool (dlc_started w) \<and> upload_video_data_to_lims e w = Inr ((), w1)"
    for w1
    using that
  proof
    assume a: "truthy_bool (dlc_started w) \<and> w1 = w"
    then have "get_spoof_ecephys_session e w = Inr (j, w)"
      using job get_spoof_cached by blast
    then show ?thesis
      using a sp root by (simp add: get_dlc_paths_def glob_tracking_spec)
  next
    assume a: "\<not> truthy_bool (dlc_started w) \<and> upload_video_data_to_lims e w = Inr ((), w1)"
    then have "spoof w1 = Some j" using upload_Inr_spoof[OF job] by blast
    then have "get_spoof_ecephys_session e w1 = Inr (j, w1)"
      using job(2) by (rule get_spoof_cached)
    then show ?thesis
      using a root by (simp add: get_dlc_paths_def glob_tracking_spec)
  qed
  have cases: "(\<forall>err. get_video_files e = Inl err
                   \<longrightarrow> get_eye_tracking_paths e w = Inl (err, w1))
              \<and> (\<forall>vf. get_video_files e = Inr vf \<and> map_of vf ''eye_cam_json'' = None
                   \<longrightarrow> get_eye_tracking_paths e w = Inl (KeyError ''eye_cam_json'', w1))
              \<and> (\<forall>vf meta. get_video_files e = Inr vf \<and> map_of vf ''eye_cam_json'' = Some meta
                   \<longrightarrow> get_eye_tracking_paths e w
                         = Inr (Some [(''raw_eye_tracking_video_meta_data'', meta),
                                      (''raw_eye_tracking_filepath'', out)], w1)
                       \<and> meta \<in> set (glob_raw e)
                       \<and> spec_roles (name meta) = [''eye_cam_json''])"
    if "truthy_bool (dlc_started w) \<and> w1 = w
        \<or> \<not> truthy_bool (dlc_started w) \<and> upload_video_data_to_lims e w = Inr ((), w1)"
    for w1
  proof -
    note res = retrieval_result[OF listing[OF that]]
    have a: "get_eye_tracking_paths e w = Inl (err, w1)" if "get_video_files e = Inl err" for err
      unfolding res using that by (simp add: out)
    have b: "get_eye_tracking_paths e w = Inl (KeyError ''eye_cam_json'', w1)"
      if "get_video_files e = Inr vf \<and> map_of vf ''eye_cam_json'' = None" for vf
      unfolding res using that by (simp add: out)
    have c: "get_eye_tracking_paths e w
                = Inr (Some [(''raw_eye_tracking_video_meta_data'', meta),
                             (''raw_eye_tracking_filepath'', out)], w1)
              \<and> meta \<in> set (glob_raw e) \<and> spec_roles (name meta) = [''eye_cam_json'']"
      if h: "get_video_files e = Inr vf \<and> map_of vf ''eye_cam_json'' = Some meta" for vf meta
    proof -
      have "map_of (keyed (glob_raw e)) ''eye_cam_json'' = Some meta"
        using h get_video_files_Inr(1)[of e vf] by simp
      from map_of_keyed_Some[OF this]
      have m: "meta \<in> set (glob_raw e)" "role_key (name meta) = ''eye_cam_json''"
        by (auto simp: key_of_def)
      have "get_eye_tracking_paths e w
                = Inr (Some [(''raw_eye_tracking_video_meta_data'', meta),
                             (''raw_eye_tracking_filepath'', out)], w1)"
        unfolding res using h by (simp add: out)
      then show ?thesis using m role_key_eye_cam_json by blast
    qed
    show ?thesis using a b c by blast
  qed
  have propagate: "get_eye_tracking_paths e w = Inl x"
    if "\<not> truthy_bool (dlc_started w) \<and> upload_video_data_to_lims e w = Inl x" for x
    using that upload_error_propagates[of w e x] by blast
  show ?thesis using split cases propagate by blast
qed

theorem ready_returns_bundle_witness:
  "spoof started = Some ex_job \<and> ex_job \<noteq> [] \<and> truthy_bool (dlc_started started)
   \<and> lims_path ex_ready ex_job = Some (Path [''allen'', ''lims'', ''output''] ex_job)
   \<and> (''eye'' @ ''_tracking'', [''points.h5'', ''Eye_ellipse.h5'', ''ellipse_2.h5''])
        \<in> set (lims_listing ex_ready ex_job)
   \<and> str_in ''ellipse'' ''ellipse_2.h5''
   \<and> tracking_outputs (case_sensitive ex_ready) (Path [''allen'', ''lims'', ''output''] ex_job)
        (lims_listing ex_ready ex_job)
       = [Path [''allen'', ''lims'', ''output'', ex_job, ''eye_tracking''] ''points.h5'',
          Path [''allen'', ''lims'', ''output'', ex_job, ''eye_tracking''] ''Eye_ellipse.h5'',
          Path [''allen'', ''lims'', ''output'', ex_job, ''eye_tracking''] ''ellipse_2.h5'',
          Path [''allen'', ''lims'', ''output'', ex_job, ''face_tracking''] ''ellipse.h5'']
   \<and> get_video_files ex_ready = Inr [(''eye_tracking'', eye_mp4), (''eye_cam_json'', eye_json)]
   \<and> get_eye_tracking_paths ex_ready started
       = Inr (Some [(''raw_eye_tracking_video_meta_data'', eye_json),
                    (''raw_eye_tracking_filepath'',
                     Path [''allen'', ''lims'', ''output'', ex_job, ''eye_tracking''] ''Eye_ellipse.h5'')],
              started)"
proof -
  let ?root = "Path [''allen'', ''lims'', ''output''] ex_job"
  have sp: "spoof started = Some ex_job" by code_simp
  have ne: "ex_job \<noteq> []" by code_simp
  have st: "truthy_bool (dlc_started started)" by code_simp
  have root: "lims_path ex_ready ex_job = Some ?root" by code_simp
  have dir: "(''eye'' @ ''_tracking'', [''points.h5'', ''Eye_ellipse.h5'', ''ellipse_2.h5''])
        \<in> set (lims_listing ex_ready ex_job)" by code_simp
  have f: "''ellipse_2.h5'' \<in> set [''points.h5'', ''Eye_ellipse.h5'', ''ellipse_2.h5'']" by simp
  have el: "str_in ''ellipse'' ''ellipse_2.h5''" by code_simp
  have outs: "tracking_outputs (case_sensitive ex_ready) ?root (lims_listing ex_ready ex_job)
       = [Path [''allen'', ''lims'', ''output'', ex_job, ''eye_tracking''] ''points.h5'',
          Path [''allen'', ''lims'', ''output'', ex_job, ''eye_tracking''] ''Eye_ellipse.h5'',
          Path [''allen'', ''lims'', ''output'', ex_job, ''eye_tracking''] ''ellipse_2.h5'',
          Path [''allen'', ''lims'', ''output'', ex_job, ''face_tracking''] ''ellipse.h5'']"
    by code_simp
  have vf: "get_video_files ex_ready = Inr [(''eye_tracking'', eye_mp4), (''eye_cam_json'', eye_json)]"
    by code_simp
  have res: "get_eye_tracking_paths ex_ready started
       = Inr (Some [(''raw_eye_tracking_video_meta_data'', eye_json),
                    (''raw_eye_tracking_filepath'',
                     Path [''allen'', ''lims'', ''output'', ex_job, ''eye_tracking''] ''Eye_ellipse.h5'')],
              started)"
    by code_simp
  from ready_returns_bundle[OF sp ne root dir f el]
  show ?thesis using sp ne st root dir el outs vf res by blast
qed

text \<open>
  Claim C4 as stated fails: for a started session whose job has an \<open>ellipse\<close> result and
  whose raw directory holds the eye video only, the retriever raises \<open>KeyError\<close> instead
  of returning a mapping.
\<close>

theorem ready_without_metadata_counterexample:
  "spoof started = Some ex_job \<and> dlc_started started = Some True
   \<and> lims_path ex_ready_no_json ex_job = Some (Path [''allen'', ''lims'', ''output''] ex_job)
   \<and> (''eye_tracking'', [''points.h5'', ''Eye_ellipse.h5'', ''ellipse_2.h5''])
        \<in> set (lims_listing ex_ready_no_json ex_job)
   \<and> str_in ''ellipse'' ''Eye_ellipse.h5''
   \<and> get_video_files ex_ready_no_json = Inr [(''eye_tracking'', eye_mp4)]
   \<and> get_eye_tracking_paths ex_ready_no_json started
       = Inl (KeyError ''eye_cam_json'', started)"
  by code_simp

text \<open>
  Claim C6. When \<open>upload_video_data_to_lims\<close> raises, \<open>dlc_started\<close> is what it was
  before the call; and when it was not true, a later retrieval whose upload steps all
  succeed makes the calls of one complete upload again (every copy, the manifest, the
  trigger) and sets \<open>dlc_started\<close>.
\<close>

theorem failed_upload_not_started:
  assumes fail: "upload_video_data_to_lims e w = Inl (err, wa)"
  shows "dlc_started wa = dlc_started w
       \<and> (\<not> truthy_bool (dlc_started w)
            \<and> get_spoof_ecephys_session e2 wa = Inr (j, w1) \<and> j \<noteq> []
            \<and> get_video_files e2 = Inr vf \<and> (\<forall>f \<in> set (map snd vf). copy_ok e2 f)
            \<and> write_text_ok e2 (manifest_path e2 j) \<and> trigger_ok e2 j
          \<longrightarrow> final_world (get_eye_tracking_paths e2 wa)
                = w1\<lparr>calls := calls w1 @ upload_calls e2 j vf, dlc_started := Some True\<rparr>)"
proof -
  have same: "dlc_started wa = dlc_started w" using fail by (rule upload_Inl_state)
  have retry: "final_world (get_eye_tracking_paths e2 wa)
                = w1\<lparr>calls := calls w1 @ upload_calls e2 j vf, dlc_started := Some True\<rparr>"
    if ns: "\<not> truthy_bool (dlc_started w)"
      and job: "get_spoof_ecephys_session e2 wa = Inr (j, w1)" and ne: "j \<noteq> []"
      and vf: "get_video_files e2 = Inr vf" and copies: "\<forall>f \<in> set (map snd vf). copy_ok e2 f"
      and wr: "write_text_ok e2 (manifest_path e2 j)" and tr: "trigger_ok e2 j"
  proof -
    have ns': "\<not> truthy_str (spoof wa) \<or> \<not> truthy_bool (dlc_started wa)"
      using ns same by simp
    note dlc = get_dlc_paths_after_upload[OF ns' job ne vf copies wr tr]
    show ?thesis
    proof (cases "lims_path e2 j")
      case None
      then show ?thesis using dlc final_world_retrieval(2) by simp
    next
      case (Some root)
      then show ?thesis using dlc final_world_retrieval(1) by simp
    qed
  qed
  show ?thesis using same retry by blast
qed

theorem failed_upload_not_started_witness:
  "upload_video_data_to_lims ex_write_fails fresh
     = Inl (WriteError ex_manifest,
            \<lparr>spoof = Some ex_job, dlc_started = None,
              calls = [Generate 366122 ''ben.hardcastle'',
                       Copy eye_mp4 (Path [''allen'', ''lims''] ''incoming''),
                       Copy eye_json (Path [''allen'', ''lims''] ''incoming''),
                       WriteText ex_manifest claimed_manifest_text]\<rparr>)
   \<and> \<not> truthy_bool (dlc_started fresh)
   \<and> final_world (get_eye_tracking_paths ex_env
        \<lparr>spoof = Some ex_job, dlc_started = None,
          calls = [Generate 366122 ''ben.hardcastle'',
                   Copy eye_mp4 (Path [''allen'', ''lims''] ''incoming''),
                   Copy eye_json (Path [''allen'', ''lims''] ''incoming''),
                   WriteText ex_manifest claimed_manifest_text]\<rparr>)
       = \<lparr>spoof = Some ex_job, dlc_started = Some True,
           calls = [Generate 366122 ''ben.hardcastle'',
                    Copy eye_mp4 (Path [''allen'', ''lims''] ''incoming''),
                    Copy eye_json (Path [''allen'', ''lims''] ''incoming''),
                    WriteText ex_manifest claimed_manifest_text] @ ex_upload_calls\<rparr>"
proof -
  let ?wa = "\<lparr>spoof = Some ex_job, dlc_started = None,
              calls = [Generate 366122 ''ben.hardcastle'',
                       Copy eye_mp4 (Path [''allen'', ''lims''] ''incoming''),
                       Copy eye_json (Path [''allen'', ''lims''] ''incoming''),
                       WriteText ex_manifest claimed_manifest_text]\<rparr>"
  let ?vf = "[(''eye_tracking'', eye_mp4), (''eye_cam_json'', eye_json)]"
  have fail: "upload_video_data_to_lims ex_write_fails fresh = Inl (WriteError ex_manifest, ?wa)"
    by code_simp
  have ns: "\<not> truthy_bool (dlc_started fresh)" by code_simp
  have job: "get_spoof_ecephys_session ex_env ?wa = Inr (ex_job, ?wa)" by code_simp
  have ne: "ex_job \<noteq> []" by code_simp
  have vf: "get_video_files ex_env = Inr ?vf" by code_simp
  have copies: "\<forall>f \<in> set (map snd ?vf). copy_ok ex_env f" by code_simp
  have wr: "write_text_ok ex_env (manifest_path ex_env ex_job)" by code_simp
  have tr: "trigger_ok ex_env ex_job" by code_simp
  have w': "?wa\<lparr>calls := calls ?wa @ upload_calls ex_env ex_job ?vf, dlc_started := Some True\<rparr>
       = \<lparr>spoof = Some ex_job, dlc_started = Some True,
           calls = [Generate 366122 ''ben.hardcastle'',
                    Copy eye_mp4 (Path [''allen'', ''lims''] ''incoming''),
                    Copy eye_json (Path [''allen'', ''lims''] ''incoming''),
                    WriteText ex_manifest claimed_manifest_text] @ ex_upload_calls\<rparr>"
    by code_simp
  from failed_upload_not_started[OF fail, of ex_env ex_job ?wa ?vf] ns job ne vf copies wr tr
  have "final_world (get_eye_tracking_paths ex_env ?wa)
          = ?wa\<lparr>calls := calls ?wa @ upload_calls ex_env ex_job ?vf, dlc_started := Some True\<rparr>"
    by blast
  then have "final_world (get_eye_tracking_paths ex_env ?wa)
       = \<lparr>spoof = Some ex_job, dlc_started = Some True,
           calls = [Generate 366122 ''ben.hardcastle'',
                    Copy eye_mp4 (Path [''allen'', ''lims''] ''incoming''),
                    Copy eye_json (Path [''allen'', ''lims''] ''incoming''),
                    WriteText ex_manifest claimed_manifest_text] @ ex_upload_calls\<rparr>"
    by (simp only: w')
  then show ?thesis using fail ns by blast
qed

end
